theory Spec2Isabelle
  imports Main
begin

section \<open>C strings and the library routines the decoder calls\<close>

text \<open>
  A C string is modelled by the list of its characters before the terminating NUL, and a
  \<^verbatim>\<open>char *\<close> that may be NULL by a \<^typ>\<open>string option\<close>. The cursor that
  \<^verbatim>\<open>strsep\<close> advances is such a pointer.
\<close>

type_synonym cursor = "string option"

text \<open>
  \<^verbatim>\<open>strsep(&cur, delim)\<close>: a NULL cursor gives the token NULL. Otherwise the token
  is the text up to the first delimiter character, which is overwritten by NUL, and the cursor
  moves behind it; with no delimiter left the token is the whole rest and the cursor becomes
  NULL. The result is the pair (token, new cursor).
\<close>

definition strsep :: "string \<Rightarrow> cursor \<Rightarrow> string option \<times> cursor" where
  "strsep dl cur =
     (case cur of
        None \<Rightarrow> (None, None)
      | Some s \<Rightarrow>
          (case dropWhile (\<lambda>c. c \<notin> set dl) s of
             [] \<Rightarrow> (Some s, None)
           | d # rest \<Rightarrow> (Some (takeWhile (\<lambda>c. c \<notin> set dl) s), Some rest)))"

text \<open>\<^verbatim>\<open>const char delim[] = " \t"\<close> and \<^verbatim>\<open>char inner_delim[] = ":"\<close>.\<close>

definition delim :: string where
  "delim = [CHR '' '', CHR 0x09]"

definition inner_delim :: string where
  "inner_delim = '':''"

fun cursor_size :: "cursor \<Rightarrow> nat" where
  "cursor_size None = 0"
| "cursor_size (Some s) = Suc (length s)"

lemma strsep_decreases:
  "strsep dl cur = (Some tok, cur') \<Longrightarrow> cursor_size cur' < cursor_size cur"
proof (cases cur)
  case None
  assume "strsep dl cur = (Some tok, cur')"
  with None show ?thesis by (simp add: strsep_def)
next
  case (Some s)
  assume eq: "strsep dl cur = (Some tok, cur')"
  have le: "length (dropWhile (\<lambda>c. c \<notin> set dl) s) \<le> length s"
    by (rule length_dropWhile_le)
  show ?thesis
  proof (cases "dropWhile (\<lambda>c. c \<notin> set dl) s")
    case Nil
    with eq Some show ?thesis by (simp add: strsep_def)
  next
    case (Cons d rest)
    with eq Some have "cur' = Some rest" by (simp add: strsep_def)
    moreover from le Cons have "Suc (length rest) \<le> length s" by simp
    ultimately show ?thesis using Some by simp
  qed
qed

text \<open>
  Modelled from the spec: \<^verbatim>\<open>util_strncpy\<close> of util.c, which is not among the sources.
  It is the bounded copy of the spec: the destination of \<open>n\<close> bytes receives at most
  \<open>n - 1\<close> characters of the source and the terminating NUL, and the result is the length
  of the stored text. The pair is (stored text, returned length). Every call passes
  \<^verbatim>\<open>sizeof\<close> of a character array, so \<open>n\<close> is at least 1.
\<close>

definition util_strncpy :: "string \<Rightarrow> nat \<Rightarrow> string \<times> int" where
  "util_strncpy src n = (take (n - 1) src, int (length (take (n - 1) src)))"

text \<open>
  Modelled from the spec: \<^verbatim>\<open>util_str_starts_with\<close> of util.c, not among the
  sources: whether the line begins with the given marker.
\<close>

definition util_str_starts_with :: "string \<Rightarrow> string \<Rightarrow> bool" where
  "util_str_starts_with str start = (take (length start) str = start)"

text \<open>
  Modelled from the spec: \<^verbatim>\<open>util_gzgets_line\<close> of util.c, not among the sources:
  the external line source, which hands out the next line or reports end of stream by NULL.
  The stream is the list of the lines not yet read.
\<close>

type_synonym gzFile = "string list"

definition util_gzgets_line :: "gzFile \<Rightarrow> string option \<times> gzFile" where
  "util_gzgets_line fh = (case fh of [] \<Rightarrow> (None, []) | l # ls \<Rightarrow> (Some l, ls))"

subsection \<open>The conversions of \<^verbatim>\<open>sscanf\<close>\<close>

text \<open>
  The directive \<^verbatim>\<open>%d\<close> skips white space, then reads an optional sign and a
  non-empty run of decimal digits. With no character left after the white space it is an input
  failure, with another character a matching failure. The value of a digit run is taken as the
  mathematical integer: the C standard leaves a run that does not fit \<^verbatim>\<open>int\<close>
  undefined.
\<close>

datatype 'a scan = InputFailure | MatchingFailure | Converted 'a string

definition isspace :: "char \<Rightarrow> bool" where
  "isspace c = (c \<in> set [CHR '' '', CHR 0x09, CHR 0x0A, CHR 0x0B, CHR 0x0C, CHR 0x0D])"

definition isdigit :: "char \<Rightarrow> bool" where
  "isdigit c = (c \<in> set ''0123456789'')"

definition digit_val :: "char \<Rightarrow> int" where
  "digit_val c = int (of_char c) - 48"

definition digits_val :: "string \<Rightarrow> int" where
  "digits_val ds = foldl (\<lambda>acc c. 10 * acc + digit_val c) 0 ds"

definition scan_d :: "string \<Rightarrow> int scan" where
  "scan_d s =
     (case dropWhile isspace s of
        [] \<Rightarrow> InputFailure
      | c # cs \<Rightarrow>
          (let neg = (c = CHR ''-'');
               body = (if c = CHR ''-'' \<or> c = CHR ''+'' then cs else c # cs);
               ds = takeWhile isdigit body
           in if ds = [] then MatchingFailure
              else Converted (if neg then - digits_val ds else digits_val ds)
                     (dropWhile isdigit body)))"

text \<open>
  \<^verbatim>\<open>sscanf(str, "%d<sep>%d", &hap1, &hap2)\<close> for a separator character: the
  result is the returned count (\<open>-1\<close> is EOF, an input failure before the first
  conversion) and the values assigned, in order.
\<close>

definition sscanf_d_d :: "char \<Rightarrow> string \<Rightarrow> int \<times> int list" where
  "sscanf_d_d sep str =
     (case scan_d str of
        InputFailure \<Rightarrow> (- 1, [])
      | MatchingFailure \<Rightarrow> (0, [])
      | Converted h1 rest \<Rightarrow>
          (case rest of
             [] \<Rightarrow> (1, [h1])
           | c # rest' \<Rightarrow>
               if c \<noteq> sep then (1, [h1])
               else (case scan_d rest' of
                       Converted h2 _ \<Rightarrow> (2, [h1, h2])
                     | _ \<Rightarrow> (1, [h1]))))"

section \<open>Warnings and fatal errors\<close>

text \<open>
  Modelled from the spec: \<^verbatim>\<open>my_warn\<close> and \<^verbatim>\<open>my_err\<close> of util.c, which is
  not among the sources. A warning is reported and decoding goes on; a fatal error ends the
  decode at once, and the statements after a call of \<^verbatim>\<open>my_err\<close> are not reached. A
  warning is a value appended to a log, one constructor for each message of vcf.c; a fatal
  error is the \<open>Inl\<close> result of the function that raises it, and what the process had
  written or reported before it ended is not kept.
\<close>

datatype warning =
    ExpectedToken int string string
  | SomeGenotypesUnphased string
  | CouldNotParseGenotype string
  | TruncatingLongAllele int int

datatype error =
    CouldNotReadHeader
  | ExpectedChromLine
  | ExpectedAtLeastTokens int
  | CouldNotParseLong string
  | NoGTToken string
  | NoGLToken
  | MoreGenotypes
  | ExpectedGenotypes int int
  | FailedToParseLikelihoods string
  | MoreLikelihoods
  | ExpectedLikelihoods int int
  | NullPointer

section \<open>The record of a line\<close>

text \<open>
  \<^verbatim>\<open>VCFInfo\<close> is declared in vcf.h, which is not among the sources; the fields are
  those that vcf.c reads and writes. The capacities of its character arrays and
  \<^verbatim>\<open>VCF_MAX_FORMAT\<close> are parameters of the functions that copy into them. Counts
  and lengths are mathematical integers: those of a line held in memory stay far below the
  limits of \<^verbatim>\<open>int\<close> and \<^verbatim>\<open>long\<close>. The sample count is signed, as a column
  line with fewer than nine tokens makes it negative.
\<close>

record VCFInfo =
  n_header_lines :: int
  n_samples :: int
  chrom :: string
  pos :: int
  id_str :: string
  ref_allele :: string
  alt_allele :: string
  ref_len :: int
  alt_len :: int
  qual :: string
  filter_str :: string
  info :: string
  format :: string

definition VCF_GTYPE_MISSING :: int where
  "VCF_GTYPE_MISSING = - 1"

definition vcf_fix_headers :: "string list" where
  "vcf_fix_headers =
     [''#CHROM'', ''POS'', ''ID'', ''REF'', ''ALT'', ''QUAL'', ''FILTER'', ''INFO'', ''FORMAT'']"

definition n_fix_header :: int where
  "n_fix_header = int (length vcf_fix_headers)"

section \<open>The header\<close>

text \<open>
  The token loop of \<^verbatim>\<open>vcf_read_header\<close>: every token is counted, and each of the
  first nine is compared with the fixed column name at its position.
\<close>

function header_tokens :: "cursor \<Rightarrow> int \<Rightarrow> warning list \<Rightarrow> int \<times> warning list" where
  "header_tokens cur tok_num ws =
     (case strsep delim cur of
        (None, _) \<Rightarrow> (tok_num, ws)
      | (Some token, cur') \<Rightarrow>
          header_tokens cur' (tok_num + 1)
            (if tok_num < n_fix_header \<and> token \<noteq> vcf_fix_headers ! nat tok_num
             then ws @ [ExpectedToken tok_num (vcf_fix_headers ! nat tok_num) token]
             else ws))"
  by pat_completeness auto
termination
  by (relation "measure (\<lambda>(cur, tok_num, ws). cursor_size cur)")
     (auto dest: strsep_decreases [OF sym])

text \<open>
  The line loop of \<^verbatim>\<open>vcf_read_header\<close>. The result is the updated record, the
  warnings and the rest of the stream.
\<close>

fun header_lines :: "gzFile \<Rightarrow> VCFInfo \<Rightarrow> error + (VCFInfo \<times> warning list \<times> gzFile)" where
  "header_lines [] vcf_info = Inl CouldNotReadHeader"
| "header_lines (line # fh) vcf_info =
     (if util_str_starts_with line ''##'' then
        header_lines fh (vcf_info\<lparr>n_header_lines := n_header_lines vcf_info + 1\<rparr>)
      else if util_str_starts_with line ''#CHROM'' then
        (let (tok_num, ws) = header_tokens (Some line) 0 []
         in Inr (vcf_info\<lparr>n_header_lines := n_header_lines vcf_info + 1,
                          n_samples := tok_num - n_fix_header\<rparr>, ws, fh))
      else Inl ExpectedChromLine)"

definition vcf_read_header :: "gzFile \<Rightarrow> VCFInfo \<Rightarrow> error + (VCFInfo \<times> warning list \<times> gzFile)" where
  "vcf_read_header vcf_fh vcf_info = header_lines vcf_fh (vcf_info\<lparr>n_header_lines := 0\<rparr>)"

section \<open>The format string\<close>

text \<open>
  \<^verbatim>\<open>get_format_index\<close> copies the format string into a local buffer of
  \<^verbatim>\<open>VCF_MAX_FORMAT\<close> bytes with \<^verbatim>\<open>strcpy\<close> (the caller's string is
  expected to fit) and walks its tokens: the index of the first token equal to the label,
  or \<open>-1\<close>.
\<close>

function format_index_loop :: "string \<Rightarrow> cursor \<Rightarrow> int \<Rightarrow> int" where
  "format_index_loop label cur i =
     (case strsep '':'' cur of
        (None, _) \<Rightarrow> - 1
      | (Some tok, cur') \<Rightarrow>
          if tok = label then i else format_index_loop label cur' (i + 1))"
  by pat_completeness auto
termination
  by (relation "measure (\<lambda>(label, cur, i). cursor_size cur)")
     (auto dest: strsep_decreases [OF sym])

definition get_format_index :: "string \<Rightarrow> string \<Rightarrow> int" where
  "get_format_index format_str label = format_index_loop label (Some format_str) 0"

section \<open>The two loops over the sample columns\<close>

text \<open>
  \<^verbatim>\<open>parse_haplotypes\<close> and \<^verbatim>\<open>parse_geno_probs\<close> run the same two nested
  loops and differ in what they do with the subfield at the index of their tag. The inner
  loop walks the subfields of one sample token while \<^verbatim>\<open>i <= idx\<close>, and runs the
  body on the subfield with \<^verbatim>\<open>i == idx\<close>. The body is a state transformer that
  may end in a fatal error.
\<close>

function subfield_loop ::
  "(string \<Rightarrow> 's \<Rightarrow> error + 's) \<Rightarrow> int \<Rightarrow> int \<Rightarrow> cursor \<Rightarrow> 's \<Rightarrow> error + 's" where
  "subfield_loop body idx i inner_cur st =
     (if i \<le> idx then
        (case strsep inner_delim inner_cur of
           (None, _) \<Rightarrow> Inr st
         | (Some inner_tok, inner_cur') \<Rightarrow>
             if i = idx then
               (case body inner_tok st of
                  Inl e \<Rightarrow> Inl e
                | Inr st' \<Rightarrow> subfield_loop body idx (i + 1) inner_cur' st')
             else subfield_loop body idx (i + 1) inner_cur' st)
      else Inr st)"
  by pat_completeness auto
termination
  by (relation "measure (\<lambda>(body, idx, i, inner_cur, st). cursor_size inner_cur)")
     (auto dest: strsep_decreases [OF sym])

text \<open>
  The outer loop takes the sample tokens off the rest of the line; each is copied into a
  local buffer of \<^verbatim>\<open>VCF_MAX_FORMAT\<close> bytes before the inner loop cuts it up.
\<close>

function sample_loop ::
  "nat \<Rightarrow> (string \<Rightarrow> 's \<Rightarrow> error + 's) \<Rightarrow> int \<Rightarrow> cursor \<Rightarrow> 's \<Rightarrow> error + 's" where
  "sample_loop max_format body idx cur st =
     (case strsep delim cur of
        (None, _) \<Rightarrow> Inr st
      | (Some tok, cur') \<Rightarrow>
          (case subfield_loop body idx 0 (Some (fst (util_strncpy tok max_format))) st of
             Inl e \<Rightarrow> Inl e
           | Inr st' \<Rightarrow> sample_loop max_format body idx cur' st'))"
  by pat_completeness auto
termination
  by (relation "measure (\<lambda>(max_format, body, idx, cur, st). cursor_size cur)")
     (auto dest: strsep_decreases [OF sym])

section \<open>Haplotypes\<close>

text \<open>
  The caller's array is a store from index to value. \<^verbatim>\<open>warn_phase\<close> is the static
  flag of \<^verbatim>\<open>parse_haplotypes\<close>, which outlives the call: it is passed in and handed
  back.
\<close>

record hap_state =
  haplotypes :: "int \<Rightarrow> int"
  n_haps :: int
  warn_phase :: bool
  hap_log :: "warning list"

text \<open>
  Lines 133 to 161: the two attempts to read the pair, and the coercion of values other than
  0, 1 and missing, from the value \<open>wp\<close> of the flag. The result is the pair, the new
  value of the flag and the warnings.
\<close>

definition parse_gt :: "bool \<Rightarrow> string \<Rightarrow> (int \<times> int) \<times> bool \<times> warning list" where
  "parse_gt wp inner_tok =
     (let (n, vs) = sscanf_d_d CHR ''|'' inner_tok;
          (hap1, hap2, wp', ws) =
            (if n \<noteq> 2 then
               (let (n', vs') = sscanf_d_d CHR ''/'' inner_tok
                in if n' = 2 \<and> wp then
                     (vs' ! 0, vs' ! 1, False, [SomeGenotypesUnphased inner_tok])
                   else
                     (VCF_GTYPE_MISSING, VCF_GTYPE_MISSING, wp,
                      [CouldNotParseGenotype inner_tok]))
             else (vs ! 0, vs ! 1, wp, []))
      in if (hap1 \<noteq> VCF_GTYPE_MISSING \<and> hap1 \<noteq> 0 \<and> hap1 \<noteq> 1) \<or>
            (hap2 \<noteq> VCF_GTYPE_MISSING \<and> hap2 \<noteq> 0 \<and> hap2 \<noteq> 1)
         then ((VCF_GTYPE_MISSING, VCF_GTYPE_MISSING), wp', ws)
         else ((hap1, hap2), wp', ws))"

text \<open>Lines 133 to 170: the body of \<^verbatim>\<open>if(i == gt_idx)\<close>.\<close>

definition hap_body :: "int \<Rightarrow> string \<Rightarrow> hap_state \<Rightarrow> error + hap_state" where
  "hap_body expect_haps inner_tok st =
     (let ((hap1, hap2), wp', ws) = parse_gt (warn_phase st) inner_tok
      in if n_haps st + 2 > expect_haps then Inl MoreGenotypes
         else Inr (st\<lparr>haplotypes := (haplotypes st)(n_haps st := hap1, n_haps st + 1 := hap2),
                      n_haps := n_haps st + 2,
                      warn_phase := wp',
                      hap_log := hap_log st @ ws\<rparr>))"

definition parse_haplotypes ::
  "nat \<Rightarrow> VCFInfo \<Rightarrow> (int \<Rightarrow> int) \<Rightarrow> cursor \<Rightarrow> bool \<Rightarrow> error + hap_state" where
  "parse_haplotypes max_format vcf_info haps cur wp =
     (let gt_idx = get_format_index (format vcf_info) ''GT''
      in if gt_idx = - 1 then Inl (NoGTToken (format vcf_info))
         else
           (let expect_haps = n_samples vcf_info * 2
            in case sample_loop max_format (hap_body expect_haps) gt_idx cur
                      \<lparr>haplotypes = haps, n_haps = 0, warn_phase = wp, hap_log = []\<rparr> of
                 Inl e \<Rightarrow> Inl e
               | Inr st \<Rightarrow>
                   if n_haps st \<noteq> expect_haps
                   then Inl (ExpectedGenotypes expect_haps (n_haps st))
                   else Inr st))"

section \<open>Genotype probabilities\<close>

text \<open>
  The arithmetic of \<^verbatim>\<open>float\<close> is a parameter: the conversion \<^verbatim>\<open>%g\<close> (the
  value and the number of characters it consumed, white space included), the constant
  \<^verbatim>\<open>-0.477\<close> as a float, \<^verbatim>\<open>pow(10.0, x)\<close> stored in a float, addition and
  division.
\<close>

record 'f float_ops =
  scan_g :: "string \<Rightarrow> ('f \<times> nat) option"
  minus_0_477 :: 'f
  pow10 :: "'f \<Rightarrow> 'f"
  fadd :: "'f \<Rightarrow> 'f \<Rightarrow> 'f"
  fdiv :: "'f \<Rightarrow> 'f \<Rightarrow> 'f"

text \<open>
  \<^verbatim>\<open>sscanf(str, "%g,%g,%g", ...)\<close>: the count of values assigned and the values.
  (An input failure before the first conversion returns EOF instead of 0; the caller only
  tests the count against 3.)
\<close>

definition sscanf_g_g_g :: "'f float_ops \<Rightarrow> string \<Rightarrow> int \<times> 'f list" where
  "sscanf_g_g_g ops str =
     (case scan_g ops str of
        None \<Rightarrow> (0, [])
      | Some (g1, k1) \<Rightarrow>
          (case drop k1 str of
             [] \<Rightarrow> (1, [g1])
           | c1 # rest1 \<Rightarrow>
               if c1 \<noteq> CHR '','' then (1, [g1])
               else (case scan_g ops rest1 of
                       None \<Rightarrow> (1, [g1])
                     | Some (g2, k2) \<Rightarrow>
                         (case drop k2 rest1 of
                            [] \<Rightarrow> (2, [g1, g2])
                          | c2 # rest2 \<Rightarrow>
                              if c2 \<noteq> CHR '','' then (2, [g1, g2])
                              else (case scan_g ops rest2 of
                                      None \<Rightarrow> (2, [g1, g2])
                                    | Some (g3, k3) \<Rightarrow> (3, [g1, g2, g3]))))))"

record 'f gp_state =
  geno_probs :: "int \<Rightarrow> 'f"
  n_geno_probs :: int

text \<open>Lines 216 to 255: the body of \<^verbatim>\<open>if(i == gl_idx)\<close>.\<close>

definition gl_body :: "'f float_ops \<Rightarrow> int \<Rightarrow> string \<Rightarrow> 'f gp_state \<Rightarrow> error + 'f gp_state" where
  "gl_body ops expect_geno_probs inner_tok st =
     (let (n, vs) = sscanf_g_g_g ops inner_tok
      in if n \<noteq> 3 \<and> inner_tok \<noteq> ''.'' then Inl (FailedToParseLikelihoods inner_tok)
         else
           (let (like_homo_ref, like_het, like_homo_alt) =
                  (if n \<noteq> 3 then (minus_0_477 ops, minus_0_477 ops, minus_0_477 ops)
                   else (vs ! 0, vs ! 1, vs ! 2));
                prob_homo_ref = pow10 ops like_homo_ref;
                prob_het = pow10 ops like_het;
                prob_homo_alt = pow10 ops like_homo_alt
            in if n_geno_probs st + 3 > expect_geno_probs then Inl MoreLikelihoods
               else
                 (let prob_sum = fadd ops (fadd ops prob_homo_ref prob_het) prob_homo_alt
                  in Inr (st\<lparr>geno_probs :=
                               (geno_probs st)
                                 (n_geno_probs st := fdiv ops prob_homo_ref prob_sum,
                                  n_geno_probs st + 1 := fdiv ops prob_het prob_sum,
                                  n_geno_probs st + 2 := fdiv ops prob_homo_alt prob_sum),
                             n_geno_probs := n_geno_probs st + 3\<rparr>))))"

definition parse_geno_probs ::
  "'f float_ops \<Rightarrow> nat \<Rightarrow> VCFInfo \<Rightarrow> (int \<Rightarrow> 'f) \<Rightarrow> cursor \<Rightarrow> error + 'f gp_state" where
  "parse_geno_probs ops max_format vcf_info probs cur =
     (let expect_geno_probs = n_samples vcf_info * 3;
          gl_idx = get_format_index (format vcf_info) ''GL''
      in if gl_idx = - 1 then Inl NoGLToken
         else
           (case sample_loop max_format (gl_body ops expect_geno_probs) gl_idx cur
                   \<lparr>geno_probs = probs, n_geno_probs = 0\<rparr> of
              Inl e \<Rightarrow> Inl e
            | Inr st \<Rightarrow>
                if n_geno_probs st \<noteq> expect_geno_probs
                then Inl (ExpectedLikelihoods expect_geno_probs (n_geno_probs st))
                else Inr st))"

section \<open>A data line\<close>

text \<open>
  What vcf.h and util.h declare and the sources do not show: the capacity
  (\<^verbatim>\<open>sizeof\<close>) of each character array of \<^verbatim>\<open>VCFInfo\<close>, the constant
  \<^verbatim>\<open>VCF_MAX_FORMAT\<close>, and \<^verbatim>\<open>util_parse_long\<close>, which may end in a fatal
  error of its own.
\<close>

record externals =
  chrom_size :: nat
  id_size :: nat
  ref_allele_size :: nat
  alt_allele_size :: nat
  qual_size :: nat
  filter_size :: nat
  info_size :: nat
  format_size :: nat
  VCF_MAX_FORMAT :: nat
  util_parse_long :: "string \<Rightarrow> error + int"

text \<open>
  What a call of \<^verbatim>\<open>vcf_read_line\<close> reads and writes: the stream, the record, the
  two arrays of the caller (\<open>None\<close> is a NULL pointer), the static flag of
  \<^verbatim>\<open>parse_haplotypes\<close> and the warnings reported so far.
\<close>

record 'f decoder =
  vcf_fh :: gzFile
  vcf_info :: VCFInfo
  geno_probs_arg :: "(int \<Rightarrow> 'f) option"
  haplotypes_arg :: "(int \<Rightarrow> int) option"
  warn_phase_static :: bool
  warnings :: "warning list"

text \<open>
  \<^verbatim>\<open>token = strsep(&cur, delim); if(token == NULL) my_err(...)\<close>, followed by the
  rest of the function.
\<close>

definition next_token :: "cursor \<Rightarrow> (string \<Rightarrow> cursor \<Rightarrow> error + 'a) \<Rightarrow> error + 'a" where
  "next_token cur k =
     (case strsep delim cur of
        (None, _) \<Rightarrow> Inl (ExpectedAtLeastTokens n_fix_header)
      | (Some token, cur') \<Rightarrow> k token cur')"

text \<open>
  \<^verbatim>\<open>if(ref_len != vcf_info->ref_len) my_warn("truncating long allele (%ld bp) to %ld bp\n",
  vcf_info->ref_len, ref_len)\<close>, and the same for the other allele.
\<close>

definition truncation_warning :: "int \<Rightarrow> int \<Rightarrow> warning list" where
  "truncation_warning copied_len true_len =
     (if copied_len \<noteq> true_len then [TruncatingLongAllele true_len copied_len] else [])"

text \<open>
  Lines 383 to 404: the sample columns go to the decoders the caller asked for. With both
  arrays given, the rest of the line is copied first, and \<^verbatim>\<open>strlen(cur)\<close> reads
  through the cursor, which is NULL when the line ended with the format token.
\<close>

definition parse_requested ::
  "externals \<Rightarrow> 'f float_ops \<Rightarrow> 'f decoder \<Rightarrow> cursor \<Rightarrow> error + 'f decoder" where
  "parse_requested ext ops d cur =
     (case (geno_probs_arg d, haplotypes_arg d) of
        (Some probs, Some haps) \<Rightarrow>
          (case cur of
             None \<Rightarrow> Inl NullPointer
           | Some cur_copy \<Rightarrow>
               (case parse_geno_probs ops (VCF_MAX_FORMAT ext) (vcf_info d) probs
                       (Some cur_copy) of
                  Inl e \<Rightarrow> Inl e
                | Inr gst \<Rightarrow>
                    (case parse_haplotypes (VCF_MAX_FORMAT ext) (vcf_info d) haps cur
                            (warn_phase_static d) of
                       Inl e \<Rightarrow> Inl e
                     | Inr hst \<Rightarrow>
                         Inr (d\<lparr>geno_probs_arg := Some (geno_probs gst),
                                 haplotypes_arg := Some (haplotypes hst),
                                 warn_phase_static := warn_phase hst,
                                 warnings := warnings d @ hap_log hst\<rparr>))))
      | (Some probs, None) \<Rightarrow>
          (case parse_geno_probs ops (VCF_MAX_FORMAT ext) (vcf_info d) probs cur of
             Inl e \<Rightarrow> Inl e
           | Inr gst \<Rightarrow> Inr (d\<lparr>geno_probs_arg := Some (geno_probs gst)\<rparr>))
      | (None, Some haps) \<Rightarrow>
          (case parse_haplotypes (VCF_MAX_FORMAT ext) (vcf_info d) haps cur
                  (warn_phase_static d) of
             Inl e \<Rightarrow> Inl e
           | Inr hst \<Rightarrow>
               Inr (d\<lparr>haplotypes_arg := Some (haplotypes hst),
                       warn_phase_static := warn_phase hst,
                       warnings := warnings d @ hap_log hst\<rparr>))
      | (None, None) \<Rightarrow> Inr d)"

text \<open>
  \<^verbatim>\<open>vcf_read_line\<close>. The first component of the result is the value returned:
  \<open>Some (- 1)\<close> at the end of the stream, and \<open>None\<close> where control reaches the
  closing brace of the function, which has no \<^verbatim>\<open>return\<close> statement of its own.
\<close>

definition vcf_read_line ::
  "externals \<Rightarrow> 'f float_ops \<Rightarrow> 'f decoder \<Rightarrow> error + (int option \<times> 'f decoder)" where
  "vcf_read_line ext ops d =
     (case util_gzgets_line (vcf_fh d) of
        (None, fh) \<Rightarrow> Inr (Some (- 1), d\<lparr>vcf_fh := fh\<rparr>)
      | (Some line, fh) \<Rightarrow>
          next_token (Some line) (\<lambda>token cur.
          let vi = (vcf_info d)\<lparr>chrom := fst (util_strncpy token (chrom_size ext))\<rparr> in
          next_token cur (\<lambda>token cur.
          case util_parse_long ext token of
            Inl e \<Rightarrow> Inl e
          | Inr p \<Rightarrow>
          let vi = vi\<lparr>pos := p\<rparr> in
          next_token cur (\<lambda>token cur.
          let vi = vi\<lparr>id_str := fst (util_strncpy token (id_size ext))\<rparr> in
          next_token cur (\<lambda>token cur.
          let vi = vi\<lparr>ref_len := int (length token)\<rparr>;
              (stored, ref_len') = util_strncpy token (ref_allele_size ext);
              vi = vi\<lparr>ref_allele := stored\<rparr>;
              ws = warnings d @ truncation_warning ref_len' (ref_len vi) in
          next_token cur (\<lambda>token cur.
          let vi = vi\<lparr>alt_len := int (length token)\<rparr>;
              (stored, alt_len') = util_strncpy token (alt_allele_size ext);
              vi = vi\<lparr>alt_allele := stored\<rparr>;
              ws = ws @ truncation_warning alt_len' (alt_len vi) in
          next_token cur (\<lambda>token cur.
          let vi = vi\<lparr>qual := fst (util_strncpy token (qual_size ext))\<rparr> in
          next_token cur (\<lambda>token cur.
          let vi = vi\<lparr>filter_str := fst (util_strncpy token (filter_size ext))\<rparr> in
          next_token cur (\<lambda>token cur.
          let vi = vi\<lparr>info := fst (util_strncpy token (info_size ext))\<rparr> in
          next_token cur (\<lambda>token cur.
          let vi = vi\<lparr>format := fst (util_strncpy token (format_size ext))\<rparr> in
          case parse_requested ext ops (d\<lparr>vcf_fh := fh, vcf_info := vi, warnings := ws\<rparr>) cur of
            Inl e \<Rightarrow> Inl e
          | Inr d' \<Rightarrow> Inr (None, d')))))))))))"

section \<open>Tokens, subfields and stored values\<close>

text \<open>
  The functions of this section describe a line as data, independently of the cursor loops:
  they are what the results of the decoders are stated in. \<open>split_str\<close> lists the tokens
  that repeated calls of \<^verbatim>\<open>strsep\<close> cut from a string: one more than the string has
  delimiter characters, empty tokens included.
\<close>

fun split_str :: "string \<Rightarrow> string \<Rightarrow> string list" where
  "split_str dl [] = [[]]"
| "split_str dl (c # cs) =
     (if c \<in> set dl then [] # split_str dl cs
      else (case split_str dl cs of
              [] \<Rightarrow> [[c]]
            | t # ts \<Rightarrow> (c # t) # ts))"

definition cursor_tokens :: "string \<Rightarrow> cursor \<Rightarrow> string list" where
  "cursor_tokens dl cur = (case cur of None \<Rightarrow> [] | Some s \<Rightarrow> split_str dl s)"

text \<open>A left-to-right run of a state transformer over a list that stops at the first error.\<close>

fun fold_err :: "('a \<Rightarrow> 's \<Rightarrow> error + 's) \<Rightarrow> 'a list \<Rightarrow> 's \<Rightarrow> error + 's" where
  "fold_err f [] st = Inr st"
| "fold_err f (x # xs) st =
     (case f x st of Inl e \<Rightarrow> Inl e | Inr st' \<Rightarrow> fold_err f xs st')"

text \<open>
  The subfield of a sample token at the index of the tag, if the copy of the token made by the
  outer loop has that many subfields, and the subfields of all the sample tokens of a line.
\<close>

definition subfield_at :: "nat \<Rightarrow> int \<Rightarrow> string \<Rightarrow> string option" where
  "subfield_at max_format idx tok =
     (let toks = split_str inner_delim (fst (util_strncpy tok max_format))
      in if nat idx < length toks then Some (toks ! nat idx) else None)"

definition subfields :: "nat \<Rightarrow> int \<Rightarrow> cursor \<Rightarrow> string list" where
  "subfields max_format idx cur =
     List.map_filter (subfield_at max_format idx) (cursor_tokens delim cur)"

text \<open>
  The pairs that \<open>parse_gt\<close> yields along a list of subfields, with the flag threaded
  through, and the array after pairs have been stored from an index on.
\<close>

fun decode_gts :: "bool \<Rightarrow> string list \<Rightarrow> (int \<times> int) list \<times> bool \<times> warning list" where
  "decode_gts wp [] = ([], wp, [])"
| "decode_gts wp (s # ss) =
     (let (pair, wp', ws) = parse_gt wp s;
          (pairs, wp'', ws') = decode_gts wp' ss
      in (pair # pairs, wp'', ws @ ws'))"

fun store_pairs :: "(int \<Rightarrow> 'a) \<Rightarrow> int \<Rightarrow> ('a \<times> 'a) list \<Rightarrow> (int \<Rightarrow> 'a)" where
  "store_pairs buf n [] = buf"
| "store_pairs buf n ((h1, h2) # ps) = store_pairs (buf(n := h1, n + 1 := h2)) (n + 2) ps"

text \<open>
  A likelihood subfield is accepted when the three conversions succeed or it is the single
  character of missing data; \<open>gl_triplet\<close> is the triplet stored for an accepted
  subfield.
\<close>

definition gl_ok :: "'f float_ops \<Rightarrow> string \<Rightarrow> bool" where
  "gl_ok ops s = (fst (sscanf_g_g_g ops s) = 3 \<or> s = ''.'')"

definition gl_triplet :: "'f float_ops \<Rightarrow> string \<Rightarrow> 'f \<times> 'f \<times> 'f" where
  "gl_triplet ops s =
     (let (n, vs) = sscanf_g_g_g ops s;
          (l1, l2, l3) =
            (if n \<noteq> 3 then (minus_0_477 ops, minus_0_477 ops, minus_0_477 ops)
             else (vs ! 0, vs ! 1, vs ! 2));
          p1 = pow10 ops l1;
          p2 = pow10 ops l2;
          p3 = pow10 ops l3;
          prob_sum = fadd ops (fadd ops p1 p2) p3
      in (fdiv ops p1 prob_sum, fdiv ops p2 prob_sum, fdiv ops p3 prob_sum))"

fun store_triples :: "(int \<Rightarrow> 'a) \<Rightarrow> int \<Rightarrow> ('a \<times> 'a \<times> 'a) list \<Rightarrow> (int \<Rightarrow> 'a)" where
  "store_triples buf n [] = buf"
| "store_triples buf n ((a, b, c) # ts) =
     store_triples (buf(n := a, n + 1 := b, n + 2 := c)) (n + 3) ts"

text \<open>
  The record after the nine fixed tokens of a line have been stored, and the warning for an
  allele token that does not fit its array.
\<close>

definition fixed_fields :: "externals \<Rightarrow> VCFInfo \<Rightarrow> string list \<Rightarrow> int \<Rightarrow> VCFInfo" where
  "fixed_fields ext vi toks p =
     vi\<lparr>chrom := take (chrom_size ext - 1) (toks ! 0),
        pos := p,
        id_str := take (id_size ext - 1) (toks ! 2),
        ref_len := int (length (toks ! 3)),
        ref_allele := take (ref_allele_size ext - 1) (toks ! 3),
        alt_len := int (length (toks ! 4)),
        alt_allele := take (alt_allele_size ext - 1) (toks ! 4),
        qual := take (qual_size ext - 1) (toks ! 5),
        filter_str := take (filter_size ext - 1) (toks ! 6),
        info := take (info_size ext - 1) (toks ! 7),
        format := take (format_size ext - 1) (toks ! 8)\<rparr>"

definition allele_warning :: "nat \<Rightarrow> string \<Rightarrow> warning list" where
  "allele_warning cap token =
     (if cap - 1 < length token
      then [TruncatingLongAllele (int (length token)) (int (cap - 1))] else [])"

definition is_truncation :: "warning \<Rightarrow> bool" where
  "is_truncation w = (case w of TruncatingLongAllele _ _ \<Rightarrow> True | _ \<Rightarrow> False)"

text \<open>The subfields that the two decoders read from the sample columns of a line.\<close>

definition gt_subfields :: "nat \<Rightarrow> VCFInfo \<Rightarrow> cursor \<Rightarrow> string list" where
  "gt_subfields mf vi cur = subfields mf (get_format_index (format vi) ''GT'') cur"

definition gl_subfields :: "nat \<Rightarrow> VCFInfo \<Rightarrow> cursor \<Rightarrow> string list" where
  "gl_subfields mf vi cur = subfields mf (get_format_index (format vi) ''GL'') cur"

text \<open>
  The probability that the likelihood decoder stores three times for a subfield of missing
  data: \<open>10\<close> to the power \<open>-0.477\<close>, divided by the sum of three of it, in the
  float operations.
\<close>

definition missing_prob :: "'f float_ops \<Rightarrow> 'f" where
  "missing_prob ops =
     (let p = pow10 ops (minus_0_477 ops)
      in fdiv ops p (fadd ops (fadd ops p p) p))"

text \<open>
  The pair that the two patterns read from a genotype subfield, the phased pattern first, if
  either reads two values; and the values an entry of the haplotype array may hold.
\<close>

definition parsed_pair :: "string \<Rightarrow> (int \<times> int) option" where
  "parsed_pair t =
     (let (n, vs) = sscanf_d_d CHR ''|'' t
      in if n = 2 then Some (vs ! 0, vs ! 1)
         else (let (n', vs') = sscanf_d_d CHR ''/'' t
               in if n' = 2 then Some (vs' ! 0, vs' ! 1) else None))"

definition binary_or_missing :: "int \<Rightarrow> bool" where
  "binary_or_missing h = (h = VCF_GTYPE_MISSING \<or> h = 0 \<or> h = 1)"

text \<open>
  What a call of \<^verbatim>\<open>vcf_read_line\<close> leaves behind, as far as the theorems look at it: the
  value returned, the first entries of the haplotype array, the static flag and the
  warnings. \<open>read_again\<close> is a second call on the same stream, record and arrays as
  the first, with the static flag as the first call left it.
\<close>

definition line_view ::
  "nat \<Rightarrow> error + (int option \<times> 'f decoder) \<Rightarrow> error + (int option \<times> int list \<times> bool \<times> warning list)" where
  "line_view k r =
     (case r of
        Inl e \<Rightarrow> Inl e
      | Inr (ret, d) \<Rightarrow>
          Inr (ret,
               (case haplotypes_arg d of None \<Rightarrow> [] | Some h \<Rightarrow> map h (map int [0..<k])),
               warn_phase_static d, warnings d))"

definition read_again ::
  "externals \<Rightarrow> 'f float_ops \<Rightarrow> 'f decoder \<Rightarrow> error + (int option \<times> 'f decoder)" where
  "read_again ext ops d =
     (case vcf_read_line ext ops d of
        Inl e \<Rightarrow> Inl e
      | Inr (r, d1) \<Rightarrow> vcf_read_line ext ops (d\<lparr>warn_phase_static := warn_phase_static d1\<rparr>))"

section \<open>Running the decoder on concrete lines\<close>

text \<open>
  The first entries of the haplotype array after a decode, with the flag and the warnings.
\<close>

definition hap_view :: "nat \<Rightarrow> error + hap_state \<Rightarrow> error + (int list \<times> bool \<times> warning list)" where
  "hap_view k r =
     (case r of
        Inl e \<Rightarrow> Inl e
      | Inr st \<Rightarrow> Inr (map (haplotypes st) (map int [0..<k]), warn_phase st, hap_log st))"

text \<open>
  An instance of the float operations that records the operations performed instead of
  rounding their results, and reads plain decimal notation (sign, digits, fraction).
\<close>

datatype fexpr = Lit string | Pow10 fexpr | Add fexpr fexpr | Div fexpr fexpr

definition scan_decimal :: "string \<Rightarrow> (fexpr \<times> nat) option" where
  "scan_decimal s =
     (let blanks = takeWhile isspace s;
          r = dropWhile isspace s;
          sign = (case r of
                    [] \<Rightarrow> []
                  | c # _ \<Rightarrow> if c = CHR ''-'' \<or> c = CHR ''+'' then [c] else []);
          r1 = drop (length sign) r;
          ip = takeWhile isdigit r1;
          r2 = drop (length ip) r1;
          fp = (case r2 of
                  [] \<Rightarrow> []
                | c # r3 \<Rightarrow> if c = CHR ''.'' then c # takeWhile isdigit r3 else []);
          lexeme = sign @ ip @ fp
      in if ip = [] \<and> length fp \<le> 1 then None
         else Some (Lit lexeme, length blanks + length lexeme))"

definition recording_ops :: "fexpr float_ops" where
  "recording_ops =
     \<lparr>scan_g = scan_decimal, minus_0_477 = Lit ''-0.477'', pow10 = Pow10, fadd = Add,
      fdiv = Div\<rparr>"

text \<open>
  Capacities small enough to show a truncation on a short line, and a
  \<^verbatim>\<open>util_parse_long\<close> that reads a decimal integer or fails.
\<close>

definition parse_long_or_fail :: "string \<Rightarrow> error + int" where
  "parse_long_or_fail s =
     (case scan_d s of Converted v _ \<Rightarrow> Inr v | _ \<Rightarrow> Inl (CouldNotParseLong s))"

definition small_ext :: externals where
  "small_ext =
     \<lparr>chrom_size = 16, id_size = 16, ref_allele_size = 4, alt_allele_size = 4,
      qual_size = 16, filter_size = 16, info_size = 16, format_size = 16,
      VCF_MAX_FORMAT = 16, util_parse_long = parse_long_or_fail\<rparr>"

text \<open>A record as the header leaves it, with a sample count and a format string.\<close>

definition info_with :: "int \<Rightarrow> string \<Rightarrow> VCFInfo" where
  "info_with n fmt =
     \<lparr>n_header_lines = 1, n_samples = n, chrom = [], pos = 0, id_str = [], ref_allele = [],
      alt_allele = [], ref_len = 0, alt_len = 0, qual = [], filter_str = [], info = [],
      format = fmt\<rparr>"

text \<open>
  The state before a call of \<^verbatim>\<open>vcf_read_line\<close> that asks for haplotypes only, with
  a zeroed array, on a stream of the given lines.
\<close>

definition hap_decoder :: "int \<Rightarrow> bool \<Rightarrow> gzFile \<Rightarrow> fexpr decoder" where
  "hap_decoder n wp fh =
     \<lparr>vcf_fh = fh, vcf_info = info_with n [], geno_probs_arg = None,
      haplotypes_arg = Some (\<lambda>_. 0), warn_phase_static = wp, warnings = []\<rparr>"

section \<open>The loops and the lists\<close>

declare header_tokens.simps [simp del]

declare format_index_loop.simps [simp del]

declare subfield_loop.simps [simp del]

declare sample_loop.simps [simp del]

lemma split_str_not_Nil [simp]: "split_str dl s \<noteq> []"
  by (cases s) (simp_all split: list.splits)

lemma split_str_Cons:
  "split_str dl (c # cs) =
     (if c \<in> set dl then [] # split_str dl cs
      else (c # hd (split_str dl cs)) # tl (split_str dl cs))"
  by (cases "split_str dl cs") simp_all

declare split_str.simps(2) [simp del]
declare split_str_Cons [simp]

lemma length_split_str: "length (split_str dl s) = Suc (length (filter (\<lambda>c. c \<in> set dl) s))"
  by (induction s) (simp_all add: Suc_leI length_greater_0_conv)

lemma strsep_None [simp]: "strsep dl None = (None, None)"
  by (simp add: strsep_def)

lemma strsep_Some:
  "\<exists>cur'. strsep dl (Some s) = (Some (hd (split_str dl s)), cur') \<and>
          cursor_tokens dl cur' = tl (split_str dl s)"
proof (induction s)
  case Nil
  show ?case by (simp add: strsep_def cursor_tokens_def)
next
  case (Cons c cs)
  then obtain cur' where
    step: "strsep dl (Some cs) = (Some (hd (split_str dl cs)), cur')" and
    rest: "cursor_tokens dl cur' = tl (split_str dl cs)"
    by blast
  show ?case
  proof (cases "c \<in> set dl")
    case True
    then have "strsep dl (Some (c # cs)) = (Some [], Some cs)"
      by (simp add: strsep_def)
    with True show ?thesis by (simp add: cursor_tokens_def)
  next
    case False
    have "strsep dl (Some (c # cs)) = (Some (c # hd (split_str dl cs)), cur')"
    proof (cases "dropWhile (\<lambda>c. c \<notin> set dl) cs")
      case Nil
      with step have eqs: "cur' = None" "hd (split_str dl cs) = cs"
        by (simp_all add: strsep_def)
      from Nil False have "dropWhile (\<lambda>c. c \<notin> set dl) (c # cs) = []" by simp
      then show ?thesis
        by (simp only: strsep_def option.case list.case eqs)
    next
      case (Cons d r)
      with step have eqs: "cur' = Some r"
        "hd (split_str dl cs) = takeWhile (\<lambda>c. c \<notin> set dl) cs"
        by (simp_all add: strsep_def)
      from Cons False have "dropWhile (\<lambda>c. c \<notin> set dl) (c # cs) = d # r"
        "takeWhile (\<lambda>c. c \<notin> set dl) (c # cs) = c # takeWhile (\<lambda>c. c \<notin> set dl) cs"
        by simp_all
      then show ?thesis
        by (simp only: strsep_def option.case list.case eqs)
    qed
    with False rest show ?thesis by simp
  qed
qed

lemma strsep_cursor:
  obtains (null) "cur = None" "strsep dl cur = (None, None)" "cursor_tokens dl cur = []"
  | (token) tok cur' where "strsep dl cur = (Some tok, cur')"
      "cursor_tokens dl cur = tok # cursor_tokens dl cur'"
proof (cases cur)
  case None
  then show ?thesis using null by (simp add: cursor_tokens_def)
next
  case (Some s)
  from strsep_Some [of dl s] obtain cur' where
    "strsep dl (Some s) = (Some (hd (split_str dl s)), cur')"
    "cursor_tokens dl cur' = tl (split_str dl s)" by blast
  with Some have "strsep dl cur = (Some (hd (split_str dl s)), cur')"
    "cursor_tokens dl cur = hd (split_str dl s) # cursor_tokens dl cur'"
    by (simp_all add: cursor_tokens_def)
  then show ?thesis by (rule token)
qed

lemma sample_loop_fold:
  "sample_loop mf body idx cur st =
     fold_err (\<lambda>tok. subfield_loop body idx 0 (Some (fst (util_strncpy tok mf))))
       (cursor_tokens delim cur) st"
proof (induction mf body idx cur st rule: sample_loop.induct)
  case (1 mf body idx cur st)
  show ?case
  proof (cases rule: strsep_cursor [of cur delim])
    case null
    then show ?thesis by (subst sample_loop.simps) simp
  next
    case (token tok cur')
    show ?thesis
    proof (cases "subfield_loop body idx 0 (Some (fst (util_strncpy tok mf))) st")
      case (Inl e)
      with token show ?thesis by (subst sample_loop.simps) simp
    next
      case (Inr st')
      with token 1 [of "Some tok" cur' tok st'] show ?thesis
        by (subst sample_loop.simps) simp
    qed
  qed
qed

lemma subfield_loop_done: "idx < i \<Longrightarrow> subfield_loop body idx i cur st = Inr st"
  by (subst subfield_loop.simps) simp

lemma subfield_loop_nth:
  "i \<le> idx \<Longrightarrow>
   subfield_loop body idx i cur st =
     (if nat (idx - i) < length (cursor_tokens inner_delim cur)
      then body (cursor_tokens inner_delim cur ! nat (idx - i)) st else Inr st)"
proof (induction body idx i cur st rule: subfield_loop.induct)
  case (1 body idx i cur st)
  show ?case
  proof (cases rule: strsep_cursor [of cur inner_delim])
    case null
    then show ?thesis by (subst subfield_loop.simps) simp
  next
    case (token tok cur')
    show ?thesis
    proof (cases "i = idx")
      case True
      with token show ?thesis
        by (subst subfield_loop.simps) (simp add: subfield_loop_done split: sum.splits)
    next
      case False
      with "1.prems" have lt: "i < idx" by simp
      then have n: "nat (idx - i) = Suc (nat (idx - (i + 1)))" by simp
      from lt "1.prems" token "1.IH"(2) [of "Some tok" cur' tok] False
      have "subfield_loop body idx (i + 1) cur' st =
        (if nat (idx - (i + 1)) < length (cursor_tokens inner_delim cur')
         then body (cursor_tokens inner_delim cur' ! nat (idx - (i + 1))) st else Inr st)"
        by simp
      with token False lt show ?thesis
        by (subst subfield_loop.simps) (simp add: n)
    qed
  qed
qed

lemma fold_subfield_loop:
  "0 \<le> idx \<Longrightarrow>
   fold_err (\<lambda>tok. subfield_loop body idx 0 (Some (fst (util_strncpy tok mf)))) toks st =
     fold_err body (List.map_filter (subfield_at mf idx) toks) st"
proof (induction toks arbitrary: st)
  case Nil
  show ?case by (simp add: map_filter_simps)
next
  case (Cons tok toks)
  show ?case
  proof (cases "subfield_at mf idx tok")
    case None
    with Cons show ?thesis
      by (simp add: map_filter_simps subfield_loop_nth subfield_at_def cursor_tokens_def
            Let_def split: if_splits)
  next
    case (Some sub)
    with Cons show ?thesis
      by (simp add: map_filter_simps subfield_loop_nth subfield_at_def cursor_tokens_def
            Let_def split: if_splits sum.splits)
  qed
qed

lemma sample_loop_subfields:
  "0 \<le> idx \<Longrightarrow> sample_loop mf body idx cur st = fold_err body (subfields mf idx cur) st"
  by (simp add: sample_loop_fold fold_subfield_loop subfields_def)

lemma format_index_loop_range:
  "format_index_loop label cur i = - 1 \<or> i \<le> format_index_loop label cur i"
proof (induction label cur i rule: format_index_loop.induct)
  case (1 label cur i)
  show ?case
  proof (cases rule: strsep_cursor [of cur "'':''"])
    case null
    then show ?thesis by (subst format_index_loop.simps) simp
  next
    case (token tok cur')
    show ?thesis
    proof (cases "tok = label")
      case True
      with token show ?thesis by (subst (1 2) format_index_loop.simps) simp
    next
      case False
      with token 1 [of "Some tok" cur' tok]
      have "format_index_loop label cur' (i + 1) = - 1 \<or>
            i + 1 \<le> format_index_loop label cur' (i + 1)" by simp
      moreover from token False
      have "format_index_loop label cur i = format_index_loop label cur' (i + 1)"
        by (subst format_index_loop.simps) simp
      ultimately show ?thesis by auto
    qed
  qed
qed

lemma get_format_index_range:
  "get_format_index format_str label = - 1 \<or> 0 \<le> get_format_index format_str label"
  unfolding get_format_index_def by (rule format_index_loop_range)

lemma hap_fold:
  "fold_err (hap_body expect) subs st =
     (if subs \<noteq> [] \<and> expect < n_haps st + 2 * int (length subs) then Inl MoreGenotypes
      else (case decode_gts (warn_phase st) subs of
              (pairs, wp', ws) \<Rightarrow>
                Inr (st\<lparr>haplotypes := store_pairs (haplotypes st) (n_haps st) pairs,
                        n_haps := n_haps st + 2 * int (length subs),
                        warn_phase := wp',
                        hap_log := hap_log st @ ws\<rparr>)))"
proof (induction subs arbitrary: st)
  case Nil
  show ?case by simp
next
  case (Cons s subs)
  obtain h1 h2 wp' ws where p: "parse_gt (warn_phase st) s = ((h1, h2), wp', ws)"
    by (metis prod.exhaust)
  show ?case
  proof (cases "expect < n_haps st + 2")
    case True
    with p show ?thesis by (simp add: hap_body_def)
  next
    case False
    let ?st' = "st\<lparr>haplotypes := (haplotypes st)(n_haps st := h1, n_haps st + 1 := h2),
                   n_haps := n_haps st + 2, warn_phase := wp', hap_log := hap_log st @ ws\<rparr>"
    from False p have step: "hap_body expect s st = Inr ?st'"
      by (simp add: hap_body_def)
    obtain pairs wp'' ws' where d: "decode_gts wp' subs = (pairs, wp'', ws')"
      by (metis prod.exhaust)
    from False have "subs = [] \<Longrightarrow> \<not> expect < n_haps st + 2 * int (length (s # subs))"
      by simp
    with step p d Cons [of ?st'] False show ?thesis
      by (auto simp: algebra_simps)
  qed
qed

lemma store_pairs_frame:
  "i < n \<or> n + 2 * int (length ps) \<le> i \<Longrightarrow> store_pairs buf n ps i = buf i"
  by (induction buf n ps rule: store_pairs.induct) auto

lemma store_pairs_nth:
  "j < length ps \<Longrightarrow>
   store_pairs buf n ps (n + 2 * int j) = fst (ps ! j) \<and>
   store_pairs buf n ps (n + 2 * int j + 1) = snd (ps ! j)"
proof (induction buf n ps arbitrary: j rule: store_pairs.induct)
  case (1 buf n)
  then show ?case by simp
next
  case (2 buf n h1 h2 ps)
  show ?case
  proof (cases j)
    case 0
    then show ?thesis by (simp add: store_pairs_frame)
  next
    case (Suc k)
    with 2 have k: "k < length ps" by simp
    have e: "n + 2 * int j = n + 2 + 2 * int k" "n + 2 * int j + 1 = n + 2 + 2 * int k + 1"
      using Suc by simp_all
    from "2.IH" [OF k] show ?thesis unfolding e using Suc by (simp add: fun_upd_def)
  qed
qed

lemma length_decode_gts: "length (fst (decode_gts wp subs)) = length subs"
proof (induction subs arbitrary: wp)
  case Nil
  show ?case by simp
next
  case (Cons s subs)
  obtain pair wp' ws where p: "parse_gt wp s = (pair, wp', ws)"
    by (metis prod_cases3)
  obtain pairs wp'' ws' where d: "decode_gts wp' subs = (pairs, wp'', ws')"
    by (metis prod_cases3)
  from Cons [of wp'] d have "length pairs = length subs" by simp
  with p d show ?case by simp
qed

lemma parse_haplotypes_char:
  "parse_haplotypes mf vi haps cur wp =
     (let gt_idx = get_format_index (format vi) ''GT'';
          subs = subfields mf gt_idx cur
      in if gt_idx = - 1 then Inl (NoGTToken (format vi))
         else if subs \<noteq> [] \<and> n_samples vi < int (length subs) then Inl MoreGenotypes
         else if int (length subs) \<noteq> n_samples vi
           then Inl (ExpectedGenotypes (n_samples vi * 2) (2 * int (length subs)))
         else (case decode_gts wp subs of
                 (pairs, wp', ws) \<Rightarrow>
                   Inr \<lparr>haplotypes = store_pairs haps 0 pairs, n_haps = n_samples vi * 2,
                        warn_phase = wp', hap_log = ws\<rparr>))"
proof (cases "get_format_index (format vi) ''GT'' = - 1")
  case True
  then show ?thesis by (simp add: parse_haplotypes_def)
next
  case False
  with get_format_index_range [of "format vi" "''GT''"]
  have "0 \<le> get_format_index (format vi) ''GT''" by simp
  with False show ?thesis
    by (auto simp: parse_haplotypes_def Let_def sample_loop_subfields hap_fold
          split: prod.splits)
qed

lemma sscanf_g_g_g_dot: "fst (sscanf_g_g_g ops ''.'') \<noteq> 3"
proof (cases "scan_g ops ''.''")
  case None
  then show ?thesis by (simp add: sscanf_g_g_g_def)
next
  case (Some r)
  obtain g k where r: "r = (g, k)" by (cases r)
  show ?thesis
  proof (cases k)
    case 0
    with Some r show ?thesis by (simp add: sscanf_g_g_g_def)
  next
    case (Suc j)
    with Some r show ?thesis by (simp add: sscanf_g_g_g_def)
  qed
qed

lemma gl_body_char:
  "gl_body ops expect s st =
     (if \<not> gl_ok ops s then Inl (FailedToParseLikelihoods s)
      else if expect < n_geno_probs st + 3 then Inl MoreLikelihoods
      else (case gl_triplet ops s of
              (p1, p2, p3) \<Rightarrow>
                Inr (st\<lparr>geno_probs :=
                          (geno_probs st)(n_geno_probs st := p1, n_geno_probs st + 1 := p2,
                             n_geno_probs st + 2 := p3),
                        n_geno_probs := n_geno_probs st + 3\<rparr>)))"
  by (auto simp: gl_body_def gl_ok_def gl_triplet_def Let_def split: prod.splits)

lemma gp_fold_ok:
  "list_all (gl_ok ops) subs \<Longrightarrow>
   fold_err (gl_body ops expect) subs st =
     (if subs \<noteq> [] \<and> expect < n_geno_probs st + 3 * int (length subs) then Inl MoreLikelihoods
      else Inr (st\<lparr>geno_probs :=
                    store_triples (geno_probs st) (n_geno_probs st) (map (gl_triplet ops) subs),
                  n_geno_probs := n_geno_probs st + 3 * int (length subs)\<rparr>))"
proof (induction subs arbitrary: st)
  case Nil
  show ?case by simp
next
  case (Cons s subs)
  then have ok: "gl_ok ops s" and rest: "list_all (gl_ok ops) subs" by simp_all
  obtain p1 p2 p3 where t: "gl_triplet ops s = (p1, p2, p3)" by (metis prod_cases3)
  show ?case
  proof (cases "expect < n_geno_probs st + 3")
    case True
    with ok show ?thesis by (simp add: gl_body_char)
  next
    case False
    let ?st' = "st\<lparr>geno_probs :=
                    (geno_probs st)(n_geno_probs st := p1, n_geno_probs st + 1 := p2,
                       n_geno_probs st + 2 := p3),
                  n_geno_probs := n_geno_probs st + 3\<rparr>"
    from False ok t have step: "gl_body ops expect s st = Inr ?st'"
      by (simp add: gl_body_char)
    from step t Cons.IH [OF rest, of ?st'] False show ?thesis
      by (auto simp: algebra_simps)
  qed
qed

lemma gp_fold_bad:
  "\<not> list_all (gl_ok ops) subs \<Longrightarrow> \<exists>e. fold_err (gl_body ops expect) subs st = Inl e"
proof (induction subs arbitrary: st)
  case Nil
  then show ?case by simp
next
  case (Cons s subs)
  show ?case
  proof (cases "gl_body ops expect s st")
    case (Inl e)
    then show ?thesis by simp
  next
    case (Inr st')
    then have "gl_ok ops s" by (auto simp: gl_body_char split: if_splits)
    with Cons.prems have "\<not> list_all (gl_ok ops) subs" by simp
    from Cons.IH [OF this, of st'] Inr show ?thesis by simp
  qed
qed

lemma parse_geno_probs_ok:
  "list_all (gl_ok ops) (subfields mf (get_format_index (format vi) ''GL'') cur) \<Longrightarrow>
   parse_geno_probs ops mf vi probs cur =
     (let gl_idx = get_format_index (format vi) ''GL'';
          subs = subfields mf gl_idx cur
      in if gl_idx = - 1 then Inl NoGLToken
         else if subs \<noteq> [] \<and> n_samples vi < int (length subs) then Inl MoreLikelihoods
         else if int (length subs) \<noteq> n_samples vi
           then Inl (ExpectedLikelihoods (n_samples vi * 3) (3 * int (length subs)))
         else Inr \<lparr>geno_probs = store_triples probs 0 (map (gl_triplet ops) subs),
                   n_geno_probs = n_samples vi * 3\<rparr>)"
proof (cases "get_format_index (format vi) ''GL'' = - 1")
  case True
  then show ?thesis by (simp add: parse_geno_probs_def)
next
  case False
  assume ok: "list_all (gl_ok ops) (subfields mf (get_format_index (format vi) ''GL'') cur)"
  from False get_format_index_range [of "format vi" "''GL''"]
  have "0 \<le> get_format_index (format vi) ''GL''" by simp
  with False ok show ?thesis
    by (auto simp: parse_geno_probs_def Let_def sample_loop_subfields gp_fold_ok)
qed

lemma parse_geno_probs_bad:
  assumes "\<not> list_all (gl_ok ops) (subfields mf (get_format_index (format vi) ''GL'') cur)"
  shows "\<exists>e. parse_geno_probs ops mf vi probs cur = Inl e"
proof (cases "get_format_index (format vi) ''GL'' = - 1")
  case True
  then show ?thesis by (simp add: parse_geno_probs_def)
next
  case False
  with get_format_index_range [of "format vi" "''GL''"]
  have nonneg: "0 \<le> get_format_index (format vi) ''GL''" by simp
  from gp_fold_bad [OF assms] obtain e where
    "fold_err (gl_body ops (n_samples vi * 3))
       (subfields mf (get_format_index (format vi) ''GL'') cur)
       \<lparr>geno_probs = probs, n_geno_probs = 0\<rparr> = Inl e" by blast
  with False nonneg show ?thesis
    by (simp add: parse_geno_probs_def Let_def sample_loop_subfields)
qed

lemma store_triples_frame:
  "i < n \<or> n + 3 * int (length ts) \<le> i \<Longrightarrow> store_triples buf n ts i = buf i"
  by (induction buf n ts rule: store_triples.induct) auto

lemma store_triples_nth:
  "j < length ts \<Longrightarrow>
   store_triples buf n ts (n + 3 * int j) = fst (ts ! j) \<and>
   store_triples buf n ts (n + 3 * int j + 1) = fst (snd (ts ! j)) \<and>
   store_triples buf n ts (n + 3 * int j + 2) = snd (snd (ts ! j))"
proof (induction buf n ts arbitrary: j rule: store_triples.induct)
  case (1 buf n)
  then show ?case by simp
next
  case (2 buf n a b c ts)
  show ?case
  proof (cases j)
    case 0
    then show ?thesis by (simp add: store_triples_frame)
  next
    case (Suc k)
    with 2 have k: "k < length ts" by simp
    have e: "n + 3 * int j = n + 3 + 3 * int k"
      "n + 3 * int j + 1 = n + 3 + 3 * int k + 1"
      "n + 3 * int j + 2 = n + 3 + 3 * int k + 2"
      using Suc by simp_all
    from "2.IH" [OF k] show ?thesis unfolding e using Suc by (simp add: fun_upd_def)
  qed
qed

lemma header_tokens_count:
  "fst (header_tokens cur tok_num ws) = tok_num + int (length (cursor_tokens delim cur))"
proof (induction cur tok_num ws rule: header_tokens.induct)
  case (1 cur tok_num ws)
  show ?case
  proof (cases rule: strsep_cursor [of cur delim])
    case null
    then show ?thesis by (subst header_tokens.simps) simp
  next
    case (token tok cur')
    with 1 [of "Some tok" cur' tok] show ?thesis
      by (subst header_tokens.simps) simp
  qed
qed

lemma header_lines_metas:
  "list_all (\<lambda>l. util_str_starts_with l ''##'') metas \<Longrightarrow>
   header_lines (metas @ fh) vi =
     header_lines fh (vi\<lparr>n_header_lines := n_header_lines vi + int (length metas)\<rparr>)"
  by (induction metas arbitrary: vi) (simp_all add: algebra_simps)

lemma chrom_line_not_meta:
  assumes "util_str_starts_with l ''#CHROM''"
  shows "\<not> util_str_starts_with l ''##''"
proof -
  from assms have "take (length ''#CHROM'') l = ''#CHROM''"
    by (simp only: util_str_starts_with_def)
  then have "l = ''#CHROM'' @ drop (length ''#CHROM'') l"
    by (metis append_take_drop_id)
  then obtain r where "l = ''#CHROM'' @ r" ..
  then show ?thesis by (simp add: util_str_starts_with_def)
qed

lemma next_token_drop:
  assumes "cursor_tokens delim cur = drop i toks" "i < length toks"
  shows "cursor_tokens delim (snd (strsep delim cur)) = drop (Suc i) toks \<and>
         next_token cur k = k (toks ! i) (snd (strsep delim cur))"
proof (cases rule: strsep_cursor [of cur delim])
  case null
  with assms show ?thesis by simp
next
  case (token tok cur')
  from assms have "cursor_tokens delim cur = toks ! i # drop (Suc i) toks"
    by (simp add: Cons_nth_drop_Suc)
  with token have "tok = toks ! i" "cursor_tokens delim cur' = drop (Suc i) toks" by simp_all
  with token show ?thesis by (simp add: next_token_def)
qed

lemmas next_token_cursor = next_token_drop [THEN conjunct1]

lemmas next_token_apply = next_token_drop [THEN conjunct2]

lemma util_strncpy_fst: "fst (util_strncpy src n) = take (n - 1) src"
  by (simp add: util_strncpy_def)

lemma truncation_warning_strncpy:
  "truncation_warning (snd (util_strncpy token cap)) (int (length token)) =
     allele_warning cap token"
  by (auto simp: truncation_warning_def allele_warning_def util_strncpy_def min_def)

lemma vcf_read_line_eof:
  "vcf_fh d = [] \<Longrightarrow> vcf_read_line ext ops d = Inr (Some (- 1), d)"
  by (simp add: vcf_read_line_def util_gzgets_line_def)

lemma vcf_read_line_char:
  fixes d :: "'f decoder"
  assumes fh: "vcf_fh d = line # fh" and len: "9 \<le> length (split_str delim line)"
  shows "\<exists>cur. cursor_tokens delim cur = drop 9 (split_str delim line) \<and>
     vcf_read_line ext ops d =
       (case util_parse_long ext (split_str delim line ! 1) of
          Inl e \<Rightarrow> Inl e
        | Inr p \<Rightarrow>
            (case parse_requested ext ops
                    (d\<lparr>vcf_fh := fh,
                       vcf_info := fixed_fields ext (vcf_info d) (split_str delim line) p,
                       warnings := warnings d @
                         allele_warning (ref_allele_size ext) (split_str delim line ! 3) @
                         allele_warning (alt_allele_size ext) (split_str delim line ! 4)\<rparr>)
                    cur of
               Inl e \<Rightarrow> Inl e
             | Inr d' \<Rightarrow> Inr (None, d')))"
proof -
  let ?toks = "split_str delim line"
  define c0 where "c0 = Some line"
  have c0: "cursor_tokens delim c0 = drop 0 ?toks" by (simp add: cursor_tokens_def c0_def)
  define c1 where "c1 = snd (strsep delim c0)"
  from next_token_cursor [OF c0] len
  have c1: "cursor_tokens delim c1 = drop 1 ?toks"
    by (simp add: c1_def eval_nat_numeral)
  from next_token_apply [OF c0] len
  have n0: "next_token c0 k = k (?toks ! 0) c1"
    for k :: "string \<Rightarrow> cursor \<Rightarrow> error + (int option \<times> 'f decoder)"
    by (simp add: c1_def)
  define c2 where "c2 = snd (strsep delim c1)"
  from next_token_cursor [OF c1] len
  have c2: "cursor_tokens delim c2 = drop 2 ?toks"
    by (simp add: c2_def eval_nat_numeral)
  from next_token_apply [OF c1] len
  have n1: "next_token c1 k = k (?toks ! 1) c2"
    for k :: "string \<Rightarrow> cursor \<Rightarrow> error + (int option \<times> 'f decoder)"
    by (simp add: c2_def)
  define c3 where "c3 = snd (strsep delim c2)"
  from next_token_cursor [OF c2] len
  have c3: "cursor_tokens delim c3 = drop 3 ?toks"
    by (simp add: c3_def eval_nat_numeral)
  from next_token_apply [OF c2] len
  have n2: "next_token c2 k = k (?toks ! 2) c3"
    for k :: "string \<Rightarrow> cursor \<Rightarrow> error + (int option \<times> 'f decoder)"
    by (simp add: c3_def)
  define c4 where "c4 = snd (strsep delim c3)"
  from next_token_cursor [OF c3] len
  have c4: "cursor_tokens delim c4 = drop 4 ?toks"
    by (simp add: c4_def eval_nat_numeral)
  from next_token_apply [OF c3] len
  have n3: "next_token c3 k = k (?toks ! 3) c4"
    for k :: "string \<Rightarrow> cursor \<Rightarrow> error + (int option \<times> 'f decoder)"
    by (simp add: c4_def)
  define c5 where "c5 = snd (strsep delim c4)"
  from next_token_cursor [OF c4] len
  have c5: "cursor_tokens delim c5 = drop 5 ?toks"
    by (simp add: c5_def eval_nat_numeral)
  from next_token_apply [OF c4] len
  have n4: "next_token c4 k = k (?toks ! 4) c5"
    for k :: "string \<Rightarrow> cursor \<Rightarrow> error + (int option \<times> 'f decoder)"
    by (simp add: c5_def)
  define c6 where "c6 = snd (strsep delim c5)"
  from next_token_cursor [OF c5] len
  have c6: "cursor_tokens delim c6 = drop 6 ?toks"
    by (simp add: c6_def eval_nat_numeral)
  from next_token_apply [OF c5] len
  have n5: "next_token c5 k = k (?toks ! 5) c6"
    for k :: "string \<Rightarrow> cursor \<Rightarrow> error + (int option \<times> 'f decoder)"
    by (simp add: c6_def)
  define c7 where "c7 = snd (strsep delim c6)"
  from next_token_cursor [OF c6] len
  have c7: "cursor_tokens delim c7 = drop 7 ?toks"
    by (simp add: c7_def eval_nat_numeral)
  from next_token_apply [OF c6] len
  have n6: "next_token c6 k = k (?toks ! 6) c7"
    for k :: "string \<Rightarrow> cursor \<Rightarrow> error + (int option \<times> 'f decoder)"
    by (simp add: c7_def)
  define c8 where "c8 = snd (strsep delim c7)"
  from next_token_cursor [OF c7] len
  have c8: "cursor_tokens delim c8 = drop 8 ?toks"
    by (simp add: c8_def eval_nat_numeral)
  from next_token_apply [OF c7] len
  have n7: "next_token c7 k = k (?toks ! 7) c8"
    for k :: "string \<Rightarrow> cursor \<Rightarrow> error + (int option \<times> 'f decoder)"
    by (simp add: c8_def)
  define c9 where "c9 = snd (strsep delim c8)"
  from next_token_cursor [OF c8] len
  have c9: "cursor_tokens delim c9 = drop 9 ?toks"
    by (simp add: c9_def eval_nat_numeral)
  from next_token_apply [OF c8] len
  have n8: "next_token c8 k = k (?toks ! 8) c9"
    for k :: "string \<Rightarrow> cursor \<Rightarrow> error + (int option \<times> 'f decoder)"
    by (simp add: c9_def)
  have "vcf_read_line ext ops d =
       (case util_parse_long ext (?toks ! 1) of
          Inl e \<Rightarrow> Inl e
        | Inr p \<Rightarrow>
            (case parse_requested ext ops
                    (d\<lparr>vcf_fh := fh,
                       vcf_info := fixed_fields ext (vcf_info d) ?toks p,
                       warnings := warnings d @
                         allele_warning (ref_allele_size ext) (?toks ! 3) @
                         allele_warning (alt_allele_size ext) (?toks ! 4)\<rparr>)
                    c9 of
               Inl e \<Rightarrow> Inl e
             | Inr d' \<Rightarrow> Inr (None, d')))"
  proof (cases "util_parse_long ext (?toks ! 1)")
    case (Inl e)
    then show ?thesis
      unfolding vcf_read_line_def
      by (simp add: fh util_gzgets_line_def n0 [unfolded c0_def] n1 Let_def)
  next
    case (Inr p)
    then show ?thesis
      unfolding vcf_read_line_def
      by (simp add: fh util_gzgets_line_def n0 [unfolded c0_def] n1 n2 n3 n4 n5 n6 n7 n8
            Let_def util_strncpy_fst fixed_fields_def split_beta truncation_warning_strncpy)
  qed
  with c9 show ?thesis by blast
qed

subsection \<open>What the decoders return\<close>

lemma parse_haplotypes_success:
  assumes "parse_haplotypes mf vi haps cur wp = Inr st"
  shows "get_format_index (format vi) ''GT'' \<noteq> - 1"
    and "int (length (gt_subfields mf vi cur)) = n_samples vi"
    and "st = \<lparr>haplotypes = store_pairs haps 0 (fst (decode_gts wp (gt_subfields mf vi cur))),
                n_haps = n_samples vi * 2,
                warn_phase = fst (snd (decode_gts wp (gt_subfields mf vi cur))),
                hap_log = snd (snd (decode_gts wp (gt_subfields mf vi cur)))\<rparr>"
  using assms unfolding parse_haplotypes_char gt_subfields_def
  by (auto simp: Let_def split: if_splits prod.splits)

lemma parse_haplotypes_more:
  assumes "get_format_index (format vi) ''GT'' \<noteq> - 1" "gt_subfields mf vi cur \<noteq> []"
    "n_samples vi < int (length (gt_subfields mf vi cur))"
  shows "parse_haplotypes mf vi haps cur wp = Inl MoreGenotypes"
  using assms unfolding parse_haplotypes_char gt_subfields_def by (simp add: Let_def)

lemma parse_haplotypes_fewer:
  assumes "get_format_index (format vi) ''GT'' \<noteq> - 1"
    "int (length (gt_subfields mf vi cur)) < n_samples vi"
  shows "parse_haplotypes mf vi haps cur wp =
           Inl (ExpectedGenotypes (n_samples vi * 2) (2 * int (length (gt_subfields mf vi cur))))"
  using assms unfolding parse_haplotypes_char gt_subfields_def by (simp add: Let_def)

lemma parse_haplotypes_entries:
  assumes ok: "parse_haplotypes mf vi haps cur wp = Inr st"
  shows "n_haps st = 2 * n_samples vi"
    and "\<forall>j < length (gt_subfields mf vi cur).
           (haplotypes st (2 * int j), haplotypes st (2 * int j + 1)) =
             fst (decode_gts wp (gt_subfields mf vi cur)) ! j"
    and "\<forall>i. i < 0 \<or> 2 * n_samples vi \<le> i \<longrightarrow> haplotypes st i = haps i"
proof -
  let ?subs = "gt_subfields mf vi cur"
  let ?pairs = "fst (decode_gts wp ?subs)"
  note s = parse_haplotypes_success [OF ok]
  from s(3) have h: "haplotypes st = store_pairs haps 0 ?pairs" by simp
  have len: "length ?pairs = length ?subs" by (rule length_decode_gts)
  from s(3) show "n_haps st = 2 * n_samples vi" by simp
  show "\<forall>j < length ?subs.
           (haplotypes st (2 * int j), haplotypes st (2 * int j + 1)) = ?pairs ! j"
  proof (intro allI impI)
    fix j assume "j < length ?subs"
    with len have "j < length ?pairs" by simp
    from store_pairs_nth [OF this, of haps 0] h
    show "(haplotypes st (2 * int j), haplotypes st (2 * int j + 1)) = ?pairs ! j"
      by (simp add: prod_eq_iff)
  qed
  show "\<forall>i. i < 0 \<or> 2 * n_samples vi \<le> i \<longrightarrow> haplotypes st i = haps i"
  proof (intro allI impI)
    fix i assume "i < 0 \<or> 2 * n_samples vi \<le> i"
    with s(2) len have "i < 0 \<or> 0 + 2 * int (length ?pairs) \<le> i" by simp
    from store_pairs_frame [OF this, of haps] h show "haplotypes st i = haps i" by simp
  qed
qed

lemma parse_geno_probs_success:
  assumes "parse_geno_probs ops mf vi probs cur = Inr gst"
  shows "get_format_index (format vi) ''GL'' \<noteq> - 1"
    and "list_all (gl_ok ops) (gl_subfields mf vi cur)"
    and "int (length (gl_subfields mf vi cur)) = n_samples vi"
    and "gst = \<lparr>geno_probs = store_triples probs 0 (map (gl_triplet ops) (gl_subfields mf vi cur)),
                 n_geno_probs = n_samples vi * 3\<rparr>"
proof -
  have ok: "list_all (gl_ok ops) (gl_subfields mf vi cur)"
  proof (rule ccontr)
    assume "\<not> list_all (gl_ok ops) (gl_subfields mf vi cur)"
    from parse_geno_probs_bad [OF this [unfolded gl_subfields_def], of probs] assms
    show False by simp
  qed
  then show "list_all (gl_ok ops) (gl_subfields mf vi cur)" .
  note c = parse_geno_probs_ok [OF ok [unfolded gl_subfields_def], of probs]
  from assms c show "get_format_index (format vi) ''GL'' \<noteq> - 1"
    by (auto simp: Let_def split: if_splits)
  from assms c show "int (length (gl_subfields mf vi cur)) = n_samples vi"
    by (auto simp: Let_def gl_subfields_def split: if_splits)
  from assms c show "gst = \<lparr>geno_probs = store_triples probs 0 (map (gl_triplet ops) (gl_subfields mf vi cur)),
                 n_geno_probs = n_samples vi * 3\<rparr>"
    by (auto simp: Let_def gl_subfields_def split: if_splits)
qed

lemma parse_geno_probs_more:
  assumes "get_format_index (format vi) ''GL'' \<noteq> - 1"
    "list_all (gl_ok ops) (gl_subfields mf vi cur)" "gl_subfields mf vi cur \<noteq> []"
    "n_samples vi < int (length (gl_subfields mf vi cur))"
  shows "parse_geno_probs ops mf vi probs cur = Inl MoreLikelihoods"
  using assms parse_geno_probs_ok [of ops mf vi cur probs] unfolding gl_subfields_def
  by (simp add: Let_def)

lemma parse_geno_probs_fewer:
  assumes "get_format_index (format vi) ''GL'' \<noteq> - 1"
    "list_all (gl_ok ops) (gl_subfields mf vi cur)"
    "int (length (gl_subfields mf vi cur)) < n_samples vi"
  shows "parse_geno_probs ops mf vi probs cur =
           Inl (ExpectedLikelihoods (n_samples vi * 3)
                  (3 * int (length (gl_subfields mf vi cur))))"
  using assms parse_geno_probs_ok [of ops mf vi cur probs] unfolding gl_subfields_def
  by (simp add: Let_def)

lemma parse_geno_probs_entries:
  assumes ok: "parse_geno_probs ops mf vi probs cur = Inr gst"
  shows "n_geno_probs gst = 3 * n_samples vi"
    and "\<forall>j < length (gl_subfields mf vi cur).
           (geno_probs gst (3 * int j), geno_probs gst (3 * int j + 1),
            geno_probs gst (3 * int j + 2)) = gl_triplet ops (gl_subfields mf vi cur ! j)"
    and "\<forall>i. i < 0 \<or> 3 * n_samples vi \<le> i \<longrightarrow> geno_probs gst i = probs i"
proof -
  let ?subs = "gl_subfields mf vi cur"
  let ?ts = "map (gl_triplet ops) ?subs"
  note s = parse_geno_probs_success [OF ok]
  from s(4) have h: "geno_probs gst = store_triples probs 0 ?ts" by simp
  from s(4) show "n_geno_probs gst = 3 * n_samples vi" by simp
  show "\<forall>j < length ?subs.
           (geno_probs gst (3 * int j), geno_probs gst (3 * int j + 1),
            geno_probs gst (3 * int j + 2)) = gl_triplet ops (?subs ! j)"
  proof (intro allI impI)
    fix j assume j: "j < length ?subs"
    then have "j < length ?ts" by simp
    from store_triples_nth [OF this, of probs 0] h j
    show "(geno_probs gst (3 * int j), geno_probs gst (3 * int j + 1),
            geno_probs gst (3 * int j + 2)) = gl_triplet ops (?subs ! j)"
      by (simp add: prod_eq_iff)
  qed
  show "\<forall>i. i < 0 \<or> 3 * n_samples vi \<le> i \<longrightarrow> geno_probs gst i = probs i"
  proof (intro allI impI)
    fix i assume "i < 0 \<or> 3 * n_samples vi \<le> i"
    with s(3) have "i < 0 \<or> 0 + 3 * int (length ?ts) \<le> i" by simp
    from store_triples_frame [OF this, of probs] h show "geno_probs gst i = probs i" by simp
  qed
qed

subsection \<open>Subfields that do not parse\<close>

lemma decode_gts_nth:
  "j < length subs \<Longrightarrow> \<exists>wp'. fst (decode_gts wp subs) ! j = fst (parse_gt wp' (subs ! j))"
proof (induction subs arbitrary: wp j)
  case Nil
  then show ?case by simp
next
  case (Cons s subs)
  obtain pair wp1 ws where p: "parse_gt wp s = (pair, wp1, ws)" by (metis prod_cases3)
  obtain pairs wp2 ws' where d: "decode_gts wp1 subs = (pairs, wp2, ws')" by (metis prod_cases3)
  show ?case
  proof (cases j)
    case 0
    with p d have "fst (decode_gts wp (s # subs)) ! j = fst (parse_gt wp ((s # subs) ! j))"
      by simp
    then show ?thesis ..
  next
    case (Suc k)
    with Cons.prems have "k < length subs" by simp
    from Cons.IH [OF this, of wp1] obtain wp' where
      "fst (decode_gts wp1 subs) ! k = fst (parse_gt wp' (subs ! k))" ..
    with p d Suc have "fst (decode_gts wp (s # subs)) ! j = fst (parse_gt wp' ((s # subs) ! j))"
      by simp
    then show ?thesis ..
  qed
qed

lemma parse_gt_unparseable:
  "fst (sscanf_d_d CHR ''|'' t) \<noteq> 2 \<Longrightarrow> fst (sscanf_d_d CHR ''/'' t) \<noteq> 2 \<Longrightarrow>
   parse_gt wp t = ((- 1, - 1), wp, [CouldNotParseGenotype t])"
  by (simp add: parse_gt_def split_beta VCF_GTYPE_MISSING_def)

lemma gl_triplet_dot: "gl_triplet ops ''.'' = (missing_prob ops, missing_prob ops, missing_prob ops)"
  using sscanf_g_g_g_dot [of ops]
  by (simp add: gl_triplet_def missing_prob_def split_beta Let_def)

lemma parse_haplotypes_counts_ok:
  assumes "get_format_index (format vi) ''GT'' \<noteq> - 1"
    "int (length (gt_subfields mf vi cur)) = n_samples vi"
  shows "\<exists>st. parse_haplotypes mf vi haps cur wp = Inr st"
  using assms unfolding parse_haplotypes_char gt_subfields_def
  by (auto simp: Let_def split: prod.splits)

subsection \<open>The values stored for a genotype\<close>

lemma parse_gt_nonbinary:
  "parsed_pair t = Some (h1, h2) \<Longrightarrow> \<not> (binary_or_missing h1 \<and> binary_or_missing h2) \<Longrightarrow>
   fst (parse_gt wp t) = (- 1, - 1)"
  by (auto simp: parse_gt_def parsed_pair_def binary_or_missing_def VCF_GTYPE_MISSING_def
        Let_def split: prod.splits if_splits)

lemma parse_gt_range:
  "binary_or_missing (fst (fst (parse_gt wp t))) \<and> binary_or_missing (snd (fst (parse_gt wp t)))"
  by (auto simp: parse_gt_def binary_or_missing_def VCF_GTYPE_MISSING_def
        Let_def split: prod.splits if_splits)

lemma parse_gt_phased_silent:
  "fst (sscanf_d_d CHR ''|'' t) = 2 \<Longrightarrow> snd (parse_gt wp t) = (wp, [])"
  by (auto simp: parse_gt_def Let_def split: prod.splits if_splits)

lemma hap_body_char:
  "hap_body expect t st =
     (if expect < n_haps st + 2 then Inl MoreGenotypes
      else Inr (st\<lparr>haplotypes :=
                    (haplotypes st)
                      (n_haps st := fst (fst (parse_gt (warn_phase st) t)),
                       n_haps st + 1 := snd (fst (parse_gt (warn_phase st) t))),
                  n_haps := n_haps st + 2,
                  warn_phase := fst (snd (parse_gt (warn_phase st) t)),
                  hap_log := hap_log st @ snd (snd (parse_gt (warn_phase st) t))\<rparr>))"
  by (simp add: hap_body_def split_beta)

lemma parse_haplotypes_errors:
  "parse_haplotypes mf vi haps cur wp = Inl e \<Longrightarrow>
   e = NoGTToken (format vi) \<or> e = MoreGenotypes \<or>
   e = ExpectedGenotypes (n_samples vi * 2) (2 * int (length (gt_subfields mf vi cur)))"
  unfolding parse_haplotypes_char gt_subfields_def
  by (auto simp: Let_def split: if_splits prod.splits)

subsection \<open>Sample tokens without the subfield of the tag\<close>

lemma length_map_filter_le: "length (List.map_filter f xs) \<le> length xs"
  by (induction xs) (auto simp: map_filter_simps split: option.splits)

lemma length_map_filter_less:
  "\<exists>x \<in> set xs. f x = None \<Longrightarrow> length (List.map_filter f xs) < length xs"
proof (induction xs)
  case Nil
  then show ?case by simp
next
  case (Cons x xs)
  show ?case
  proof (cases "f x")
    case None
    with length_map_filter_le [of f xs] show ?thesis by (simp add: map_filter_simps)
  next
    case (Some y)
    with Cons.prems have "\<exists>x \<in> set xs. f x = None" by auto
    from Cons.IH [OF this] Some show ?thesis by (simp add: map_filter_simps)
  qed
qed

lemma subfield_at_None:
  "subfield_at mf idx tok = None \<longleftrightarrow>
     length (split_str inner_delim (fst (util_strncpy tok mf))) \<le> nat idx"
  by (auto simp: subfield_at_def Let_def)

lemma short_token_skipped:
  assumes "0 \<le> idx" "length (split_str inner_delim (fst (util_strncpy tok mf))) \<le> nat idx"
  shows "subfield_loop body idx 0 (Some (fst (util_strncpy tok mf))) st = Inr st"
  using assms by (simp add: subfield_loop_nth cursor_tokens_def)

lemma short_token_fewer_subfields:
  assumes "tok \<in> set (cursor_tokens delim cur)"
    "length (split_str inner_delim (fst (util_strncpy tok mf))) \<le> nat idx"
  shows "length (subfields mf idx cur) < length (cursor_tokens delim cur)"
proof -
  from assms have "\<exists>x \<in> set (cursor_tokens delim cur). subfield_at mf idx x = None"
    by (auto simp: subfield_at_None)
  then show ?thesis unfolding subfields_def by (rule length_map_filter_less)
qed

subsection \<open>The header line\<close>

lemma n_fix_header_9: "n_fix_header = 9"
  by (simp add: n_fix_header_def vcf_fix_headers_def)

lemma vcf_read_header_chrom_line:
  assumes metas: "list_all (\<lambda>l. util_str_starts_with l ''##'') metas"
    and hdr: "util_str_starts_with hdr ''#CHROM''"
  shows "vcf_read_header (metas @ hdr # rest) vi =
           Inr (vi\<lparr>n_header_lines := int (length metas) + 1,
                    n_samples := int (length (split_str delim hdr)) - 9\<rparr>,
                snd (header_tokens (Some hdr) 0 []), rest)"
proof -
  have "fst (header_tokens (Some hdr) 0 []) = int (length (split_str delim hdr))"
    by (simp add: header_tokens_count cursor_tokens_def)
  with chrom_line_not_meta [OF hdr] hdr show ?thesis
    by (simp add: vcf_read_header_def header_lines_metas [OF metas] split_beta n_fix_header_9)
qed

subsection \<open>The fixed tokens of a data line\<close>

lemma next_token_step:
  "next_token cur k =
     (case cursor_tokens delim cur of
        [] \<Rightarrow> Inl (ExpectedAtLeastTokens n_fix_header)
      | t # ts \<Rightarrow> k t (snd (strsep delim cur)))"
  by (cases rule: strsep_cursor [of cur delim]) (simp_all add: next_token_def)

lemma cursor_tokens_advance:
  "cursor_tokens delim (snd (strsep delim cur)) = tl (cursor_tokens delim cur)"
  by (cases rule: strsep_cursor [of cur delim]) (simp_all add: cursor_tokens_def)

lemma next_token_at:
  assumes "cursor_tokens delim cur = drop i toks"
  shows "next_token cur k =
           (if i < length toks then k (toks ! i) (snd (strsep delim cur))
            else Inl (ExpectedAtLeastTokens n_fix_header))"
proof (cases "i < length toks")
  case True
  with assms have "cursor_tokens delim cur = toks ! i # drop (Suc i) toks"
    by (simp add: Cons_nth_drop_Suc)
  with True show ?thesis by (simp add: next_token_step)
next
  case False
  with assms have "cursor_tokens delim cur = []" by simp
  with False show ?thesis by (simp add: next_token_step)
qed

lemma cursor_tokens_advance_drop:
  "cursor_tokens delim cur = drop i toks \<Longrightarrow>
   cursor_tokens delim (snd (strsep delim cur)) = drop (Suc i) toks"
  by (simp add: cursor_tokens_advance drop_Suc tl_drop)

lemma vcf_read_line_short:
  fixes d :: "'f decoder"
  assumes fh: "vcf_fh d = line # fh" and len: "length (split_str delim line) < 9"
  shows "\<exists>e. vcf_read_line ext ops d = Inl e"
proof -
  let ?toks = "split_str delim line"
  define c0 where "c0 = Some line"
  have c0: "cursor_tokens delim c0 = drop 0 ?toks" by (simp add: cursor_tokens_def c0_def)
  define c1 where "c1 = snd (strsep delim c0)"
  define c2 where "c2 = snd (strsep delim c1)"
  define c3 where "c3 = snd (strsep delim c2)"
  define c4 where "c4 = snd (strsep delim c3)"
  define c5 where "c5 = snd (strsep delim c4)"
  define c6 where "c6 = snd (strsep delim c5)"
  define c7 where "c7 = snd (strsep delim c6)"
  define c8 where "c8 = snd (strsep delim c7)"
  define c9 where "c9 = snd (strsep delim c8)"
  note cs = c1_def c2_def c3_def c4_def c5_def c6_def c7_def c8_def c9_def
  from c0 have c1: "cursor_tokens delim c1 = drop (Suc 0) ?toks"
    unfolding c1_def by (rule cursor_tokens_advance_drop)
  then have c2: "cursor_tokens delim c2 = drop (Suc (Suc 0)) ?toks"
    unfolding c2_def by (rule cursor_tokens_advance_drop)
  then have c3: "cursor_tokens delim c3 = drop (Suc (Suc (Suc 0))) ?toks"
    unfolding c3_def by (rule cursor_tokens_advance_drop)
  then have c4: "cursor_tokens delim c4 = drop (Suc (Suc (Suc (Suc 0)))) ?toks"
    unfolding c4_def by (rule cursor_tokens_advance_drop)
  then have c5: "cursor_tokens delim c5 = drop (Suc (Suc (Suc (Suc (Suc 0))))) ?toks"
    unfolding c5_def by (rule cursor_tokens_advance_drop)
  then have c6: "cursor_tokens delim c6 = drop (Suc (Suc (Suc (Suc (Suc (Suc 0)))))) ?toks"
    unfolding c6_def by (rule cursor_tokens_advance_drop)
  then have c7: "cursor_tokens delim c7 = drop (Suc (Suc (Suc (Suc (Suc (Suc (Suc 0))))))) ?toks"
    unfolding c7_def by (rule cursor_tokens_advance_drop)
  then have c8:
    "cursor_tokens delim c8 = drop (Suc (Suc (Suc (Suc (Suc (Suc (Suc (Suc 0)))))))) ?toks"
    unfolding c8_def by (rule cursor_tokens_advance_drop)
  note n = next_token_at [OF c0, folded c1_def] next_token_at [OF c1, folded c2_def]
    next_token_at [OF c2, folded c3_def] next_token_at [OF c3, folded c4_def]
    next_token_at [OF c4, folded c5_def] next_token_at [OF c5, folded c6_def]
    next_token_at [OF c6, folded c7_def] next_token_at [OF c7, folded c8_def]
    next_token_at [OF c8, folded c9_def]
  show ?thesis
  proof (cases "util_parse_long ext (?toks ! Suc 0)")
    case (Inl e)
    then show ?thesis
      unfolding vcf_read_line_def
      by (simp add: fh util_gzgets_line_def n [unfolded c0_def] Let_def)
  next
    case (Inr p)
    from len have "\<not> Suc (Suc (Suc (Suc (Suc (Suc (Suc (Suc 0))))))) < length ?toks"
      by (simp add: eval_nat_numeral)
    with Inr show ?thesis
      unfolding vcf_read_line_def
      by (simp add: fh util_gzgets_line_def n [unfolded c0_def] Let_def split_beta)
  qed
qed

lemma parse_gt_warnings: "filter is_truncation (snd (snd (parse_gt wp t))) = []"
  by (auto simp: parse_gt_def is_truncation_def Let_def split: prod.splits if_splits)

lemma decode_gts_warnings: "filter is_truncation (snd (snd (decode_gts wp subs))) = []"
proof (induction subs arbitrary: wp)
  case Nil
  show ?case by simp
next
  case (Cons s subs)
  obtain pair wp1 ws where p: "parse_gt wp s = (pair, wp1, ws)" by (metis prod_cases3)
  obtain pairs wp2 ws' where d: "decode_gts wp1 subs = (pairs, wp2, ws')" by (metis prod_cases3)
  from parse_gt_warnings [of wp s] p have "filter is_truncation ws = []" by simp
  moreover from Cons [of wp1] d have "filter is_truncation ws' = []" by simp
  ultimately show ?case using p d by simp
qed

lemma parse_haplotypes_log:
  "parse_haplotypes mf vi haps cur wp = Inr st \<Longrightarrow> filter is_truncation (hap_log st) = []"
  using parse_haplotypes_success(3) [of mf vi haps cur wp st] decode_gts_warnings
  by simp

lemma parse_requested_frame:
  assumes "parse_requested ext ops d cur = Inr d'"
  shows "vcf_info d' = vcf_info d \<and> vcf_fh d' = vcf_fh d \<and>
         (\<exists>ws. warnings d' = warnings d @ ws \<and> filter is_truncation ws = [])"
  using assms
  by (auto simp: parse_requested_def parse_haplotypes_log
        split: option.splits sum.splits)

lemma filter_allele_warning:
  "filter is_truncation (allele_warning cap token) = allele_warning cap token"
  by (simp add: allele_warning_def is_truncation_def)

text \<open>
  The value that a call returns, whenever it returns: \<open>-1\<close> at the end of the stream and
  none after a line.
\<close>

lemma vcf_read_line_returned_value:
  assumes "vcf_read_line ext ops d = Inr (r, d')"
  shows "r = (if vcf_fh d = [] then Some (- 1) else None)"
proof (cases "vcf_fh d")
  case Nil
  with assms show ?thesis by (simp add: vcf_read_line_eof)
next
  case (Cons line fh)
  have len: "9 \<le> length (split_str delim line)"
  proof (rule ccontr)
    assume "\<not> 9 \<le> length (split_str delim line)"
    then have "length (split_str delim line) < 9" by simp
    from vcf_read_line_short [OF Cons this, of ext ops] assms show False by auto
  qed
  from vcf_read_line_char [OF Cons len, of ext ops] obtain cur where
    eq: "vcf_read_line ext ops d =
       (case util_parse_long ext (split_str delim line ! 1) of
          Inl e \<Rightarrow> Inl e
        | Inr p \<Rightarrow>
            (case parse_requested ext ops
                    (d\<lparr>vcf_fh := fh,
                       vcf_info := fixed_fields ext (vcf_info d) (split_str delim line) p,
                       warnings := warnings d @
                         allele_warning (ref_allele_size ext) (split_str delim line ! 3) @
                         allele_warning (alt_allele_size ext) (split_str delim line ! 4)\<rparr>)
                    cur of
               Inl e \<Rightarrow> Inl e
             | Inr d' \<Rightarrow> Inr (None, d')))"
    by blast
  from assms have "r = None"
    unfolding eq by (cases "util_parse_long ext (split_str delim line ! 1)")
      (auto split: sum.splits)
  with Cons show ?thesis by simp
qed

section \<open>The claims\<close>

subsection \<open>C1: unphased genotypes\<close>

text \<open>
  C1 says that every genotype subfield written with the separator \<^verbatim>\<open>/\<close> is stored
  like its phased form, at each occurrence of a run, that only the notice about unphased
  genotypes is limited to the first occurrence, and that the pair is set to missing only when
  neither pattern matches. The branch that resets the flag is taken only while the flag is
  set: once it is cleared, a subfield that the second pattern does match falls into the
  branch for unparseable input. On a line of two samples that both read \<^verbatim>\<open>0/1\<close>,
  decoded with the flag still set, the first pair is stored as 0 and 1 with the notice, and
  the second is stored as missing twice with the warning for an unparseable genotype. The same
  line written with \<^verbatim>\<open>|\<close> stores 0 and 1 for both samples.
\<close>

theorem second_unphased_genotype_is_stored_missing:
  "hap_view 4 (parse_haplotypes 16 (info_with 2 ''GT'') (\<lambda>_. 0) (Some ''0/1 0/1'') True) =
     Inr ([0, 1, - 1, - 1], False,
          [SomeGenotypesUnphased ''0/1'', CouldNotParseGenotype ''0/1'']) \<and>
   hap_view 4 (parse_haplotypes 16 (info_with 2 ''GT'') (\<lambda>_. 0) (Some ''0|1 0|1'') True) =
     Inr ([0, 1, 0, 1], True, [])"
  by code_simp

subsection \<open>C2: the same line twice\<close>

text \<open>
  C2 says that decoding the same line twice, with the same header and fresh copies of the
  line, gives the same record, haplotypes and probabilities. The static flag of
  \<^verbatim>\<open>parse_haplotypes\<close> is meant to silence a notice, but through the branch shown
  under C1 it decides what is stored: the first decode of a line with the genotype
  \<^verbatim>\<open>0/1\<close> stores 0 and 1 and clears the flag, and the second decode of the same line
  stores \<open>-1\<close> twice.
\<close>

theorem same_line_decoded_twice_differs:
  "line_view 2 (vcf_read_line small_ext recording_ops
      (hap_decoder 1 True [''1 100 rs1 A G . PASS . GT 0/1''])) =
     Inr (None, [0, 1], False, [SomeGenotypesUnphased ''0/1'']) \<and>
   line_view 2 (read_again small_ext recording_ops
      (hap_decoder 1 True [''1 100 rs1 A G . PASS . GT 0/1''])) =
     Inr (None, [- 1, - 1], False, [CouldNotParseGenotype ''0/1''])"
  by code_simp

subsection \<open>C4: alleles other than 0 and 1\<close>

text \<open>
  C4 as stated says that a parsed pair with a value outside 0, 1 and missing is stored as
  missing twice, that a warning is emitted, and that decoding goes on. The branch that
  coerces the pair (lines 151 to 161) reports nothing. For the phased subfield
  \<^verbatim>\<open>2|3\<close> the first pattern reads the pair 2 and 3, the array receives \<open>-1\<close> twice,
  and the list of warnings of the decode is empty.
\<close>

theorem nonbinary_pair_unwarned_counterexample:
  "parsed_pair ''2|3'' = Some (2, 3) \<and>
   hap_view 2 (parse_haplotypes 16 (info_with 1 ''GT'') (\<lambda>_. 0) (Some ''2|3'') True) =
     Inr ([- 1, - 1], True, [])"
  by code_simp

text \<open>
  C4, amended: whenever the pair read from a genotype subfield has a value outside 0, 1 and
  missing, \<^verbatim>\<open>parse_haplotypes\<close> stores \<open>-1\<close> in both entries of that sample and
  raises no fatal error for it; the coercion itself reports no warning, so a phased pair is
  coerced in silence; the subfield \<^verbatim>\<open>2/3\<close>, as the first unphased genotype of a run,
  is stored as \<open>-1\<close> twice with the notice about unphased genotypes and no fatal error.
  In the theorem: the body of the loop stores \<open>-1\<close> twice for such a subfield and fails
  only when the array is full; a subfield that the phased pattern reads leaves the flag and
  adds no warning; after a successful decode the two entries of such a sample are \<open>-1\<close>;
  the only fatal errors of \<^verbatim>\<open>parse_haplotypes\<close> are the missing tag and the two
  count errors; and the line \<^verbatim>\<open>2/3\<close> decodes as said.
\<close>

theorem nonbinary_pair_stored_missing:
  "(parsed_pair t = Some (h1, h2) \<and> \<not> (binary_or_missing h1 \<and> binary_or_missing h2) \<longrightarrow>
      fst (parse_gt wp t) = (- 1, - 1) \<and>
      hap_body expect t st =
        (if expect < n_haps st + 2 then Inl MoreGenotypes
         else Inr (st\<lparr>haplotypes := (haplotypes st)(n_haps st := - 1, n_haps st + 1 := - 1),
                     n_haps := n_haps st + 2,
                     warn_phase := fst (snd (parse_gt (warn_phase st) t)),
                     hap_log := hap_log st @ snd (snd (parse_gt (warn_phase st) t))\<rparr>))) \<and>
   (fst (sscanf_d_d CHR ''|'' t) = 2 \<longrightarrow> snd (parse_gt wp t) = (wp, [])) \<and>
   (parse_haplotypes mf vi haps cur wp = Inr st' \<and> j < length (gt_subfields mf vi cur) \<and>
    parsed_pair (gt_subfields mf vi cur ! j) = Some (h1, h2) \<and>
    \<not> (binary_or_missing h1 \<and> binary_or_missing h2) \<longrightarrow>
      haplotypes st' (2 * int j) = - 1 \<and> haplotypes st' (2 * int j + 1) = - 1) \<and>
   (parse_haplotypes mf vi haps cur wp = Inl e \<longrightarrow>
      e = NoGTToken (format vi) \<or> e = MoreGenotypes \<or>
      e = ExpectedGenotypes (n_samples vi * 2) (2 * int (length (gt_subfields mf vi cur)))) \<and>
   hap_view 2 (parse_haplotypes 16 (info_with 1 ''GT'') (\<lambda>_. 0) (Some ''2/3'') True) =
     Inr ([- 1, - 1], False, [SomeGenotypesUnphased ''2/3''])"
proof (intro conjI impI)
  assume a: "parsed_pair t = Some (h1, h2) \<and> \<not> (binary_or_missing h1 \<and> binary_or_missing h2)"
  then show "fst (parse_gt wp t) = (- 1, - 1)" by (simp add: parse_gt_nonbinary)
  from a have "fst (parse_gt (warn_phase st) t) = (- 1, - 1)" by (simp add: parse_gt_nonbinary)
  then show "hap_body expect t st =
        (if expect < n_haps st + 2 then Inl MoreGenotypes
         else Inr (st\<lparr>haplotypes := (haplotypes st)(n_haps st := - 1, n_haps st + 1 := - 1),
                     n_haps := n_haps st + 2,
                     warn_phase := fst (snd (parse_gt (warn_phase st) t)),
                     hap_log := hap_log st @ snd (snd (parse_gt (warn_phase st) t))\<rparr>))"
    by (simp add: hap_body_char)
next
  assume "fst (sscanf_d_d CHR ''|'' t) = 2"
  then show "snd (parse_gt wp t) = (wp, [])" by (rule parse_gt_phased_silent)
next
  let ?subs = "gt_subfields mf vi cur"
  assume a: "parse_haplotypes mf vi haps cur wp = Inr st' \<and> j < length ?subs \<and>
    parsed_pair (?subs ! j) = Some (h1, h2) \<and>
    \<not> (binary_or_missing h1 \<and> binary_or_missing h2)"
  then have ok: "parse_haplotypes mf vi haps cur wp = Inr st'" and j: "j < length ?subs" by simp_all
  from decode_gts_nth [OF j] obtain wp' where
    "fst (decode_gts wp ?subs) ! j = fst (parse_gt wp' (?subs ! j))" ..
  with a have "fst (decode_gts wp ?subs) ! j = (- 1, - 1)"
    by (simp add: parse_gt_nonbinary)
  with parse_haplotypes_entries(2) [OF ok] j
  show "haplotypes st' (2 * int j) = - 1" and "haplotypes st' (2 * int j + 1) = - 1"
    by (simp_all add: prod_eq_iff)
next
  assume "parse_haplotypes mf vi haps cur wp = Inl e"
  then show "e = NoGTToken (format vi) \<or> e = MoreGenotypes \<or>
      e = ExpectedGenotypes (n_samples vi * 2) (2 * int (length (gt_subfields mf vi cur)))"
    by (rule parse_haplotypes_errors)
next
  show "hap_view 2 (parse_haplotypes 16 (info_with 1 ''GT'') (\<lambda>_. 0) (Some ''2/3'') True) =
     Inr ([- 1, - 1], False, [SomeGenotypesUnphased ''2/3''])"
    by code_simp
qed

text \<open>
  The theorem on the subfield \<^verbatim>\<open>0|2\<close>: alone, as the second sample of a line, and
  as the only column of a line for two samples.
\<close>

theorem nonbinary_pair_stored_missing_witness:
  "fst (parse_gt True ''0|2'') = (- 1, - 1) \<and>
   snd (parse_gt True ''0|2'') = (True, []) \<and>
   (\<exists>st. parse_haplotypes 16 (info_with 2 ''GT'') (\<lambda>_. 0) (Some ''0|1 0|2'') True = Inr st \<and>
         haplotypes st 2 = - 1 \<and> haplotypes st 3 = - 1) \<and>
   (\<exists>e. parse_haplotypes 16 (info_with 2 ''GT'') (\<lambda>_. 0) (Some ''0|2'') True = Inl e \<and>
        (e = NoGTToken ''GT'' \<or> e = MoreGenotypes \<or> e = ExpectedGenotypes 4 2))"
proof (intro conjI)
  have p: "parsed_pair ''0|2'' = Some (0, 2) \<and> \<not> (binary_or_missing 0 \<and> binary_or_missing 2)"
    by code_simp
  with nonbinary_pair_stored_missing [of "''0|2''" 0 2 True]
  show "fst (parse_gt True ''0|2'') = (- 1, - 1)" by blast
next
  have "fst (sscanf_d_d CHR ''|'' ''0|2'') = 2" by code_simp
  with nonbinary_pair_stored_missing [of "''0|2''" _ _ True]
  show "snd (parse_gt True ''0|2'') = (True, [])" by blast
next
  let ?vi = "info_with 2 ''GT''"
  let ?cur = "Some ''0|1 0|2''"
  let ?r = "parse_haplotypes 16 ?vi (\<lambda>_. 0) ?cur True"
  have "\<not> isl ?r" by code_simp
  then obtain st where st: "?r = Inr st" by (cases ?r) simp_all
  have h: "1 < length (gt_subfields 16 ?vi ?cur) \<and>
           parsed_pair (gt_subfields 16 ?vi ?cur ! 1) = Some (0, 2) \<and>
           \<not> (binary_or_missing 0 \<and> binary_or_missing 2)"
    by code_simp
  from st h nonbinary_pair_stored_missing
              [where mf = 16 and vi = ?vi and haps = "\<lambda>_. 0" and cur = ?cur and wp = True
                 and st' = st and j = 1 and ?h1.0 = 0 and ?h2.0 = 2]
  have "haplotypes st (2 * int 1) = - 1 \<and> haplotypes st (2 * int 1 + 1) = - 1" by blast
  then have "haplotypes st 2 = - 1 \<and> haplotypes st 3 = - 1" by simp
  with st show "\<exists>st. ?r = Inr st \<and> haplotypes st 2 = - 1 \<and> haplotypes st 3 = - 1" by blast
next
  let ?vi = "info_with 2 ''GT''"
  let ?r = "parse_haplotypes 16 ?vi (\<lambda>_. 0) (Some ''0|2'') True"
  have "isl ?r" by code_simp
  then obtain e where e: "?r = Inl e" by (cases ?r) simp_all
  have v: "format ?vi = ''GT''" "n_samples ?vi * 2 = 4"
    "2 * int (length (gt_subfields 16 ?vi (Some ''0|2''))) = 2"
    by code_simp+
  from e nonbinary_pair_stored_missing
           [where mf = 16 and vi = ?vi and haps = "\<lambda>_. 0" and cur = "Some ''0|2''" and wp = True
              and e = e]
  have "e = NoGTToken (format ?vi) \<or> e = MoreGenotypes \<or>
        e = ExpectedGenotypes (n_samples ?vi * 2)
              (2 * int (length (gt_subfields 16 ?vi (Some ''0|2''))))"
    by blast
  then have "e = NoGTToken ''GT'' \<or> e = MoreGenotypes \<or> e = ExpectedGenotypes 4 2"
    by (simp only: v)
  with e show "\<exists>e. ?r = Inl e \<and>
        (e = NoGTToken ''GT'' \<or> e = MoreGenotypes \<or> e = ExpectedGenotypes 4 2)"
    by blast
qed

subsection \<open>C5: a subfield that does not parse\<close>

text \<open>
  C5: in \<^verbatim>\<open>parse_geno_probs\<close> a likelihood subfield that is neither three
  comma-separated floats nor the single character \<^verbatim>\<open>.\<close> is a fatal error that ends
  the decode, and only \<^verbatim>\<open>.\<close> is replaced by the uniform triplet of missing data;
  in \<^verbatim>\<open>parse_haplotypes\<close> an unparseable genotype subfield is stored as missing and
  the decode goes on. The theorem has five parts. A line with such a likelihood subfield
  among its subfields ends \<^verbatim>\<open>parse_geno_probs\<close> in an error; the body of the loop
  returns the parse error for it whatever the state; on \<^verbatim>\<open>.\<close> the body stores the
  missing probability three times (unless the array is full); a genotype subfield that
  neither pattern matches yields the pair of missing values and the warning, with the flag
  unchanged; and \<^verbatim>\<open>parse_haplotypes\<close> succeeds whenever the format has the tag and
  the line has one genotype subfield per sample, whatever the subfields hold, the entries of
  an unparseable one being \<open>-1\<close> twice.
\<close>

theorem likelihood_parse_failure_fatal_genotype_parse_failure_missing:
  "(s \<in> set (gl_subfields mf vi cur) \<and> fst (sscanf_g_g_g ops s) \<noteq> 3 \<and> s \<noteq> ''.'' \<longrightarrow>
      (\<exists>e. parse_geno_probs ops mf vi probs cur = Inl e)) \<and>
   (fst (sscanf_g_g_g ops s) \<noteq> 3 \<and> s \<noteq> ''.'' \<longrightarrow>
      gl_body ops expect s gst = Inl (FailedToParseLikelihoods s)) \<and>
   gl_body ops expect ''.'' gst =
     (if expect < n_geno_probs gst + 3 then Inl MoreLikelihoods
      else Inr (gst\<lparr>geno_probs :=
                     (geno_probs gst)
                       (n_geno_probs gst := missing_prob ops,
                        n_geno_probs gst + 1 := missing_prob ops,
                        n_geno_probs gst + 2 := missing_prob ops),
                   n_geno_probs := n_geno_probs gst + 3\<rparr>)) \<and>
   (fst (sscanf_d_d CHR ''|'' t) \<noteq> 2 \<and> fst (sscanf_d_d CHR ''/'' t) \<noteq> 2 \<longrightarrow>
      parse_gt wp t = ((- 1, - 1), wp, [CouldNotParseGenotype t])) \<and>
   (get_format_index (format vi) ''GT'' \<noteq> - 1 \<and>
    int (length (gt_subfields mf vi cur)) = n_samples vi \<longrightarrow>
      (\<exists>st. parse_haplotypes mf vi haps cur wp = Inr st \<and>
         (\<forall>j < length (gt_subfields mf vi cur).
            fst (sscanf_d_d CHR ''|'' (gt_subfields mf vi cur ! j)) \<noteq> 2 \<and>
            fst (sscanf_d_d CHR ''/'' (gt_subfields mf vi cur ! j)) \<noteq> 2 \<longrightarrow>
              haplotypes st (2 * int j) = - 1 \<and> haplotypes st (2 * int j + 1) = - 1)))"
proof (intro conjI impI)
  assume a: "s \<in> set (gl_subfields mf vi cur) \<and> fst (sscanf_g_g_g ops s) \<noteq> 3 \<and> s \<noteq> ''.''"
  then have "\<not> gl_ok ops s" by (simp add: gl_ok_def)
  with a have "\<not> list_all (gl_ok ops) (gl_subfields mf vi cur)"
    by (auto simp: list_all_iff)
  from parse_geno_probs_bad [OF this [unfolded gl_subfields_def]]
  show "\<exists>e. parse_geno_probs ops mf vi probs cur = Inl e" .
next
  assume "fst (sscanf_g_g_g ops s) \<noteq> 3 \<and> s \<noteq> ''.''"
  then show "gl_body ops expect s gst = Inl (FailedToParseLikelihoods s)"
    by (simp add: gl_body_char gl_ok_def)
next
  show "gl_body ops expect ''.'' gst =
     (if expect < n_geno_probs gst + 3 then Inl MoreLikelihoods
      else Inr (gst\<lparr>geno_probs :=
                     (geno_probs gst)
                       (n_geno_probs gst := missing_prob ops,
                        n_geno_probs gst + 1 := missing_prob ops,
                        n_geno_probs gst + 2 := missing_prob ops),
                   n_geno_probs := n_geno_probs gst + 3\<rparr>))"
    by (simp add: gl_body_char gl_ok_def gl_triplet_dot)
next
  assume "fst (sscanf_d_d CHR ''|'' t) \<noteq> 2 \<and> fst (sscanf_d_d CHR ''/'' t) \<noteq> 2"
  then show "parse_gt wp t = ((- 1, - 1), wp, [CouldNotParseGenotype t])"
    by (simp add: parse_gt_unparseable)
next
  let ?subs = "gt_subfields mf vi cur"
  assume h: "get_format_index (format vi) ''GT'' \<noteq> - 1 \<and> int (length ?subs) = n_samples vi"
  with parse_haplotypes_counts_ok obtain st where
    st: "parse_haplotypes mf vi haps cur wp = Inr st" by blast
  have "\<forall>j < length ?subs.
            fst (sscanf_d_d CHR ''|'' (?subs ! j)) \<noteq> 2 \<and>
            fst (sscanf_d_d CHR ''/'' (?subs ! j)) \<noteq> 2 \<longrightarrow>
              haplotypes st (2 * int j) = - 1 \<and> haplotypes st (2 * int j + 1) = - 1"
  proof (intro allI impI)
    fix j
    assume j: "j < length ?subs"
      and bad: "fst (sscanf_d_d CHR ''|'' (?subs ! j)) \<noteq> 2 \<and>
                fst (sscanf_d_d CHR ''/'' (?subs ! j)) \<noteq> 2"
    from decode_gts_nth [OF j] obtain wp' where
      "fst (decode_gts wp ?subs) ! j = fst (parse_gt wp' (?subs ! j))" ..
    with bad have "fst (decode_gts wp ?subs) ! j = (- 1, - 1)"
      by (simp add: parse_gt_unparseable)
    with parse_haplotypes_entries(2) [OF st] j
    show "haplotypes st (2 * int j) = - 1 \<and> haplotypes st (2 * int j + 1) = - 1"
      by (simp add: prod_eq_iff)
  qed
  with st show "\<exists>st. parse_haplotypes mf vi haps cur wp = Inr st \<and>
         (\<forall>j < length ?subs.
            fst (sscanf_d_d CHR ''|'' (?subs ! j)) \<noteq> 2 \<and>
            fst (sscanf_d_d CHR ''/'' (?subs ! j)) \<noteq> 2 \<longrightarrow>
              haplotypes st (2 * int j) = - 1 \<and> haplotypes st (2 * int j + 1) = - 1)"
    by blast
qed

text \<open>
  The theorem on a line of two samples whose second likelihood subfield has a letter for its
  second value, and on the same line with the genotype \<^verbatim>\<open>./.\<close> for the second
  sample.
\<close>

theorem likelihood_parse_failure_fatal_genotype_parse_failure_missing_witness:
  "(\<exists>e. parse_geno_probs recording_ops 16 (info_with 2 ''GT:GL'') (\<lambda>_. Lit [])
           (Some ''0|1:-1,-2,-3 0|1:-1,x,-3'') = Inl e) \<and>
   gl_body recording_ops 6 ''-1,x,-3'' \<lparr>geno_probs = (\<lambda>_. Lit []), n_geno_probs = 3\<rparr> =
     Inl (FailedToParseLikelihoods ''-1,x,-3'') \<and>
   parse_gt True ''./.'' = ((- 1, - 1), True, [CouldNotParseGenotype ''./.'']) \<and>
   (\<exists>st. parse_haplotypes 16 (info_with 2 ''GT:GL'') (\<lambda>_. 0)
            (Some ''0|1:-1,-2,-3 ./.:-1,x,-3'') True = Inr st \<and>
         haplotypes st 2 = - 1 \<and> haplotypes st 3 = - 1)"
proof (intro conjI)
  note T = likelihood_parse_failure_fatal_genotype_parse_failure_missing
  have "''-1,x,-3'' \<in> set (gl_subfields 16 (info_with 2 ''GT:GL'')
          (Some ''0|1:-1,-2,-3 0|1:-1,x,-3'')) \<and>
        fst (sscanf_g_g_g recording_ops ''-1,x,-3'') \<noteq> 3 \<and> ''-1,x,-3'' \<noteq> ''.''"
    by code_simp
  with T [of "''-1,x,-3''" 16 "info_with 2 ''GT:GL''" "Some ''0|1:-1,-2,-3 0|1:-1,x,-3''"
            recording_ops]
  show "\<exists>e. parse_geno_probs recording_ops 16 (info_with 2 ''GT:GL'') (\<lambda>_. Lit [])
           (Some ''0|1:-1,-2,-3 0|1:-1,x,-3'') = Inl e"
    by blast
next
  have "fst (sscanf_g_g_g recording_ops ''-1,x,-3'') \<noteq> 3 \<and> ''-1,x,-3'' \<noteq> ''.''"
    by code_simp
  with likelihood_parse_failure_fatal_genotype_parse_failure_missing
         [of "''-1,x,-3''" _ _ _ recording_ops]
  show "gl_body recording_ops 6 ''-1,x,-3'' \<lparr>geno_probs = (\<lambda>_. Lit []), n_geno_probs = 3\<rparr> =
     Inl (FailedToParseLikelihoods ''-1,x,-3'')"
    by blast
next
  have "fst (sscanf_d_d CHR ''|'' ''./.'') \<noteq> 2 \<and> fst (sscanf_d_d CHR ''/'' ''./.'') \<noteq> 2"
    by code_simp
  with likelihood_parse_failure_fatal_genotype_parse_failure_missing [where t = "''./.''"]
  show "parse_gt True ''./.'' = ((- 1, - 1), True, [CouldNotParseGenotype ''./.''])"
    by blast
next
  let ?vi = "info_with 2 ''GT:GL''"
  let ?cur = "Some ''0|1:-1,-2,-3 ./.:-1,x,-3''"
  have subs: "gt_subfields 16 ?vi ?cur = [''0|1'', ''./.'']" by code_simp
  have h: "get_format_index (format ?vi) ''GT'' \<noteq> - 1 \<and>
           int (length (gt_subfields 16 ?vi ?cur)) = n_samples ?vi"
    by code_simp
  have bad: "fst (sscanf_d_d CHR ''|'' ''./.'') \<noteq> 2 \<and> fst (sscanf_d_d CHR ''/'' ''./.'') \<noteq> 2"
    by code_simp
  from h likelihood_parse_failure_fatal_genotype_parse_failure_missing
           [where mf = 16 and vi = ?vi and cur = ?cur and haps = "\<lambda>_. 0" and wp = True]
  obtain st where st: "parse_haplotypes 16 ?vi (\<lambda>_. 0) ?cur True = Inr st"
    and m: "\<forall>j < length (gt_subfields 16 ?vi ?cur).
            fst (sscanf_d_d CHR ''|'' (gt_subfields 16 ?vi ?cur ! j)) \<noteq> 2 \<and>
            fst (sscanf_d_d CHR ''/'' (gt_subfields 16 ?vi ?cur ! j)) \<noteq> 2 \<longrightarrow>
              haplotypes st (2 * int j) = - 1 \<and> haplotypes st (2 * int j + 1) = - 1"
    by blast
  from m [unfolded subs, rule_format, of 1] bad
  have "haplotypes st 2 = - 1 \<and> haplotypes st 3 = - 1" by simp
  with st show "\<exists>st. parse_haplotypes 16 ?vi (\<lambda>_. 0) ?cur True = Inr st \<and>
         haplotypes st 2 = - 1 \<and> haplotypes st 3 = - 1"
    by blast
qed

subsection \<open>C6: the number of entries stored\<close>

text \<open>
  C6: \<^verbatim>\<open>parse_haplotypes\<close> stores two entries per sample, in the order of the samples,
  and ends in a fatal error when the running count would pass twice the sample count or when
  the count at the end of the line differs from it; \<^verbatim>\<open>parse_geno_probs\<close> does the
  same with three entries per sample. In the theorem, a successful decode has found exactly as
  many subfields of its tag as there are samples; entry \<open>2j\<close> and \<open>2j + 1\<close> hold the pair
  decoded from the \<open>j\<close>-th of them (entries \<open>3j\<close> to \<open>3j + 2\<close> the triplet), and no
  entry outside the first \<open>2n\<close> (\<open>3n\<close>) is touched. With more subfields than samples the
  result is the error for too many values, with fewer the error that reports both counts.
  For the likelihoods these two errors are stated for lines whose subfields are all accepted,
  since an unparseable subfield ends the decode first.
\<close>

theorem decoders_store_fixed_count_or_fail:
  "(parse_haplotypes mf vi haps cur wp = Inr st \<longrightarrow>
      n_haps st = 2 * n_samples vi \<and>
      int (length (gt_subfields mf vi cur)) = n_samples vi \<and>
      (\<forall>j < length (gt_subfields mf vi cur).
         (haplotypes st (2 * int j), haplotypes st (2 * int j + 1)) =
           fst (decode_gts wp (gt_subfields mf vi cur)) ! j) \<and>
      (\<forall>i. i < 0 \<or> 2 * n_samples vi \<le> i \<longrightarrow> haplotypes st i = haps i)) \<and>
   (get_format_index (format vi) ''GT'' \<noteq> - 1 \<and> gt_subfields mf vi cur \<noteq> [] \<and>
    n_samples vi < int (length (gt_subfields mf vi cur)) \<longrightarrow>
      parse_haplotypes mf vi haps cur wp = Inl MoreGenotypes) \<and>
   (get_format_index (format vi) ''GT'' \<noteq> - 1 \<and>
    int (length (gt_subfields mf vi cur)) < n_samples vi \<longrightarrow>
      parse_haplotypes mf vi haps cur wp =
        Inl (ExpectedGenotypes (n_samples vi * 2) (2 * int (length (gt_subfields mf vi cur))))) \<and>
   (parse_geno_probs ops mf vi probs cur = Inr gst \<longrightarrow>
      n_geno_probs gst = 3 * n_samples vi \<and>
      int (length (gl_subfields mf vi cur)) = n_samples vi \<and>
      (\<forall>j < length (gl_subfields mf vi cur).
         (geno_probs gst (3 * int j), geno_probs gst (3 * int j + 1),
          geno_probs gst (3 * int j + 2)) = gl_triplet ops (gl_subfields mf vi cur ! j)) \<and>
      (\<forall>i. i < 0 \<or> 3 * n_samples vi \<le> i \<longrightarrow> geno_probs gst i = probs i)) \<and>
   (get_format_index (format vi) ''GL'' \<noteq> - 1 \<and> list_all (gl_ok ops) (gl_subfields mf vi cur) \<and>
    gl_subfields mf vi cur \<noteq> [] \<and> n_samples vi < int (length (gl_subfields mf vi cur)) \<longrightarrow>
      parse_geno_probs ops mf vi probs cur = Inl MoreLikelihoods) \<and>
   (get_format_index (format vi) ''GL'' \<noteq> - 1 \<and> list_all (gl_ok ops) (gl_subfields mf vi cur) \<and>
    int (length (gl_subfields mf vi cur)) < n_samples vi \<longrightarrow>
      parse_geno_probs ops mf vi probs cur =
        Inl (ExpectedLikelihoods (n_samples vi * 3)
               (3 * int (length (gl_subfields mf vi cur)))))"
proof (intro conjI impI)
  assume ok: "parse_haplotypes mf vi haps cur wp = Inr st"
  from parse_haplotypes_entries [OF ok] parse_haplotypes_success(2) [OF ok]
  show "n_haps st = 2 * n_samples vi"
    and "int (length (gt_subfields mf vi cur)) = n_samples vi"
    and "\<forall>j < length (gt_subfields mf vi cur).
         (haplotypes st (2 * int j), haplotypes st (2 * int j + 1)) =
           fst (decode_gts wp (gt_subfields mf vi cur)) ! j"
    and "\<forall>i. i < 0 \<or> 2 * n_samples vi \<le> i \<longrightarrow> haplotypes st i = haps i"
    by blast+
next
  assume "get_format_index (format vi) ''GT'' \<noteq> - 1 \<and> gt_subfields mf vi cur \<noteq> [] \<and>
    n_samples vi < int (length (gt_subfields mf vi cur))"
  then show "parse_haplotypes mf vi haps cur wp = Inl MoreGenotypes"
    by (simp add: parse_haplotypes_more)
next
  assume "get_format_index (format vi) ''GT'' \<noteq> - 1 \<and>
    int (length (gt_subfields mf vi cur)) < n_samples vi"
  then show "parse_haplotypes mf vi haps cur wp =
        Inl (ExpectedGenotypes (n_samples vi * 2) (2 * int (length (gt_subfields mf vi cur))))"
    by (simp add: parse_haplotypes_fewer)
next
  assume ok: "parse_geno_probs ops mf vi probs cur = Inr gst"
  from parse_geno_probs_entries [OF ok] parse_geno_probs_success(3) [OF ok]
  show "n_geno_probs gst = 3 * n_samples vi"
    and "int (length (gl_subfields mf vi cur)) = n_samples vi"
    and "\<forall>j < length (gl_subfields mf vi cur).
         (geno_probs gst (3 * int j), geno_probs gst (3 * int j + 1),
          geno_probs gst (3 * int j + 2)) = gl_triplet ops (gl_subfields mf vi cur ! j)"
    and "\<forall>i. i < 0 \<or> 3 * n_samples vi \<le> i \<longrightarrow> geno_probs gst i = probs i"
    by blast+
next
  assume "get_format_index (format vi) ''GL'' \<noteq> - 1 \<and> list_all (gl_ok ops) (gl_subfields mf vi cur) \<and>
    gl_subfields mf vi cur \<noteq> [] \<and> n_samples vi < int (length (gl_subfields mf vi cur))"
  then show "parse_geno_probs ops mf vi probs cur = Inl MoreLikelihoods"
    by (simp add: parse_geno_probs_more)
next
  assume "get_format_index (format vi) ''GL'' \<noteq> - 1 \<and> list_all (gl_ok ops) (gl_subfields mf vi cur) \<and>
    int (length (gl_subfields mf vi cur)) < n_samples vi"
  then show "parse_geno_probs ops mf vi probs cur =
        Inl (ExpectedLikelihoods (n_samples vi * 3)
               (3 * int (length (gl_subfields mf vi cur))))"
    by (simp add: parse_geno_probs_fewer)
qed

text \<open>
  The theorem at work: two samples decoded from two columns; one and three samples declared
  for the same two columns; and the likelihood decoder on one, two and one column for one,
  one and two samples.
\<close>

theorem decoders_store_fixed_count_or_fail_witness:
  "(\<exists>st. parse_haplotypes 16 (info_with 2 ''GT'') (\<lambda>_. 0) (Some ''0|1 1|0'') True = Inr st \<and>
         n_haps st = 4 \<and> (haplotypes st 2, haplotypes st 3) = (1, 0) \<and> haplotypes st 4 = 0) \<and>
   parse_haplotypes 16 (info_with 1 ''GT'') (\<lambda>_. 0) (Some ''0|1 1|0'') True = Inl MoreGenotypes \<and>
   parse_haplotypes 16 (info_with 3 ''GT'') (\<lambda>_. 0) (Some ''0|1 1|0'') True =
     Inl (ExpectedGenotypes 6 4) \<and>
   (\<exists>gst. parse_geno_probs recording_ops 16 (info_with 1 ''GL'') (\<lambda>_. Lit []) (Some ''.'') =
            Inr gst \<and>
          n_geno_probs gst = 3 \<and> geno_probs gst 3 = Lit []) \<and>
   parse_geno_probs recording_ops 16 (info_with 1 ''GL'') (\<lambda>_. Lit []) (Some ''. -1,-2,-3'') =
     Inl MoreLikelihoods \<and>
   parse_geno_probs recording_ops 16 (info_with 2 ''GL'') (\<lambda>_. Lit []) (Some ''.'') =
     Inl (ExpectedLikelihoods 6 3)"
proof (intro conjI)
  note T = decoders_store_fixed_count_or_fail
  let ?r = "parse_haplotypes 16 (info_with 2 ''GT'') (\<lambda>_. 0) (Some ''0|1 1|0'') True"
  have "\<not> isl ?r" by code_simp
  then obtain st where st: "?r = Inr st" by (cases ?r) simp_all
  have subs: "gt_subfields 16 (info_with 2 ''GT'') (Some ''0|1 1|0'') = [''0|1'', ''1|0'']"
    by code_simp
  have dec: "fst (decode_gts True [''0|1'', ''1|0'']) = [(0, 1), (1, 0)]"
    by code_simp
  have n: "n_samples (info_with 2 ''GT'') = 2" by (simp add: info_with_def)
  from T [of 16 "info_with 2 ''GT''" "\<lambda>_. 0" "Some ''0|1 1|0''" True st] st
  have a: "n_haps st = 2 * n_samples (info_with 2 ''GT'')"
    and b: "\<forall>j < length (gt_subfields 16 (info_with 2 ''GT'') (Some ''0|1 1|0'')).
         (haplotypes st (2 * int j), haplotypes st (2 * int j + 1)) =
           fst (decode_gts True (gt_subfields 16 (info_with 2 ''GT'') (Some ''0|1 1|0''))) ! j"
    and c: "\<forall>i. i < 0 \<or> 2 * n_samples (info_with 2 ''GT'') \<le> i \<longrightarrow> haplotypes st i = 0"
    by blast+
  from b [unfolded subs dec, rule_format, of 1]
  have "(haplotypes st 2, haplotypes st 3) = (1, 0)" by simp
  moreover from a n have "n_haps st = 4" by simp
  moreover from c [rule_format, of 4] n have "haplotypes st 4 = 0" by simp
  ultimately
  show "\<exists>st. ?r = Inr st \<and> n_haps st = 4 \<and>
          (haplotypes st 2, haplotypes st 3) = (1, 0) \<and> haplotypes st 4 = 0"
    using st by blast
next
  have "get_format_index (format (info_with 1 ''GT'')) ''GT'' \<noteq> - 1 \<and>
        gt_subfields 16 (info_with 1 ''GT'') (Some ''0|1 1|0'') \<noteq> [] \<and>
        n_samples (info_with 1 ''GT'') < int (length (gt_subfields 16 (info_with 1 ''GT'') (Some ''0|1 1|0'')))"
    by code_simp
  with decoders_store_fixed_count_or_fail
         [of 16 "info_with 1 ''GT''" "\<lambda>_. 0" "Some ''0|1 1|0''" True]
  show "parse_haplotypes 16 (info_with 1 ''GT'') (\<lambda>_. 0) (Some ''0|1 1|0'') True =
          Inl MoreGenotypes"
    by blast
next
  have h: "get_format_index (format (info_with 3 ''GT'')) ''GT'' \<noteq> - 1 \<and>
        int (length (gt_subfields 16 (info_with 3 ''GT'') (Some ''0|1 1|0''))) <
          n_samples (info_with 3 ''GT'')"
    by code_simp
  have v: "n_samples (info_with 3 ''GT'') * 2 = 6"
    "2 * int (length (gt_subfields 16 (info_with 3 ''GT'') (Some ''0|1 1|0''))) = 4"
    by code_simp+
  from h decoders_store_fixed_count_or_fail
         [of 16 "info_with 3 ''GT''" "\<lambda>_. 0" "Some ''0|1 1|0''" True]
  have "parse_haplotypes 16 (info_with 3 ''GT'') (\<lambda>_. 0) (Some ''0|1 1|0'') True =
     Inl (ExpectedGenotypes (n_samples (info_with 3 ''GT'') * 2)
       (2 * int (length (gt_subfields 16 (info_with 3 ''GT'') (Some ''0|1 1|0'')))))"
    by blast
  then show "parse_haplotypes 16 (info_with 3 ''GT'') (\<lambda>_. 0) (Some ''0|1 1|0'') True =
     Inl (ExpectedGenotypes 6 4)"
    unfolding v .
next
  let ?r = "parse_geno_probs recording_ops 16 (info_with 1 ''GL'') (\<lambda>_. Lit []) (Some ''.'')"
  have "\<not> isl ?r" by code_simp
  then obtain gst where gst: "?r = Inr gst" by (cases ?r) simp_all
  have n: "n_samples (info_with 1 ''GL'') = 1" by (simp add: info_with_def)
  from decoders_store_fixed_count_or_fail
         [of 16 "info_with 1 ''GL''" _ "Some ''.''" _ _ recording_ops "\<lambda>_. Lit []" gst] gst
  have a: "n_geno_probs gst = 3 * n_samples (info_with 1 ''GL'')"
    and c: "\<forall>i. i < 0 \<or> 3 * n_samples (info_with 1 ''GL'') \<le> i \<longrightarrow> geno_probs gst i = Lit []"
    by blast+
  from a n have "n_geno_probs gst = 3" by simp
  moreover from c [rule_format, of 3] n have "geno_probs gst 3 = Lit []" by simp
  ultimately show "\<exists>gst. ?r = Inr gst \<and> n_geno_probs gst = 3 \<and> geno_probs gst 3 = Lit []"
    using gst by blast
next
  have "get_format_index (format (info_with 1 ''GL'')) ''GL'' \<noteq> - 1 \<and>
        list_all (gl_ok recording_ops) (gl_subfields 16 (info_with 1 ''GL'') (Some ''. -1,-2,-3'')) \<and>
        gl_subfields 16 (info_with 1 ''GL'') (Some ''. -1,-2,-3'') \<noteq> [] \<and>
        n_samples (info_with 1 ''GL'') <
          int (length (gl_subfields 16 (info_with 1 ''GL'') (Some ''. -1,-2,-3'')))"
    by code_simp
  with decoders_store_fixed_count_or_fail
         [of 16 "info_with 1 ''GL''" _ "Some ''. -1,-2,-3''" _ _ recording_ops "\<lambda>_. Lit []"]
  show "parse_geno_probs recording_ops 16 (info_with 1 ''GL'') (\<lambda>_. Lit [])
          (Some ''. -1,-2,-3'') = Inl MoreLikelihoods"
    by blast
next
  have h: "get_format_index (format (info_with 2 ''GL'')) ''GL'' \<noteq> - 1 \<and>
        list_all (gl_ok recording_ops) (gl_subfields 16 (info_with 2 ''GL'') (Some ''.'')) \<and>
        int (length (gl_subfields 16 (info_with 2 ''GL'') (Some ''.''))) <
          n_samples (info_with 2 ''GL'')"
    by code_simp
  have v: "n_samples (info_with 2 ''GL'') * 3 = 6"
    "3 * int (length (gl_subfields 16 (info_with 2 ''GL'') (Some ''.''))) = 3"
    by code_simp+
  from h decoders_store_fixed_count_or_fail
         [of 16 "info_with 2 ''GL''" _ "Some ''.''" _ _ recording_ops "\<lambda>_. Lit []"]
  have "parse_geno_probs recording_ops 16 (info_with 2 ''GL'') (\<lambda>_. Lit []) (Some ''.'') =
     Inl (ExpectedLikelihoods (n_samples (info_with 2 ''GL'') * 3)
       (3 * int (length (gl_subfields 16 (info_with 2 ''GL'') (Some ''.'')))))"
    by blast
  then show "parse_geno_probs recording_ops 16 (info_with 2 ''GL'') (\<lambda>_. Lit []) (Some ''.'') =
     Inl (ExpectedLikelihoods 6 3)"
    unfolding v .
qed

subsection \<open>C7: allele lengths and truncation\<close>

text \<open>
  C7: for every data line \<^verbatim>\<open>vcf_read_line\<close> records the true length of the
  reference and alternate allele tokens in \<^verbatim>\<open>ref_len\<close> and \<^verbatim>\<open>alt_len\<close>; a
  token longer than the array keeps its true length there while the stored text is capped,
  and exactly one warning is reported for that allele, with no fatal error. In the theorem
  the tokens are the fourth and fifth of the line. After a call that returns, the lengths are
  those of the tokens, the stored texts are the tokens cut to the capacity of their arrays,
  the warnings reported before the call are kept, and the truncation warnings among the new
  ones are one for the reference allele if it was cut, then one for the alternate allele if
  it was cut, each with the true and the stored length. That a long allele is never fatal
  shows in the second part: with no array requested, a line with nine tokens and a readable
  position always decodes, whatever the length of its alleles.
\<close>

theorem allele_lengths_true_and_truncation_warned:
  "(vcf_fh d = line # fh \<and> vcf_read_line ext ops d = Inr (r, d') \<longrightarrow>
      ref_len (vcf_info d') = int (length (split_str delim line ! 3)) \<and>
      alt_len (vcf_info d') = int (length (split_str delim line ! 4)) \<and>
      ref_allele (vcf_info d') = take (ref_allele_size ext - 1) (split_str delim line ! 3) \<and>
      alt_allele (vcf_info d') = take (alt_allele_size ext - 1) (split_str delim line ! 4) \<and>
      take (length (warnings d)) (warnings d') = warnings d \<and>
      filter is_truncation (drop (length (warnings d)) (warnings d')) =
        (if ref_allele_size ext - 1 < length (split_str delim line ! 3)
         then [TruncatingLongAllele (int (length (split_str delim line ! 3)))
                 (int (ref_allele_size ext - 1))]
         else []) @
        (if alt_allele_size ext - 1 < length (split_str delim line ! 4)
         then [TruncatingLongAllele (int (length (split_str delim line ! 4)))
                 (int (alt_allele_size ext - 1))]
         else [])) \<and>
   (vcf_fh d = line # fh \<and> 9 \<le> length (split_str delim line) \<and>
    util_parse_long ext (split_str delim line ! 1) = Inr p \<and>
    geno_probs_arg d = None \<and> haplotypes_arg d = None \<longrightarrow>
      (\<exists>d'. vcf_read_line ext ops d = Inr (None, d')))"
proof (intro conjI impI)
  let ?toks = "split_str delim line"
  assume a: "vcf_fh d = line # fh \<and> vcf_read_line ext ops d = Inr (r, d')"
  then have fh: "vcf_fh d = line # fh" and ok: "vcf_read_line ext ops d = Inr (r, d')"
    by simp_all
  have len: "9 \<le> length ?toks"
  proof (rule ccontr)
    assume "\<not> 9 \<le> length ?toks"
    then have "length ?toks < 9" by simp
    from vcf_read_line_short [OF fh this, of ext ops] ok show False by auto
  qed
  from vcf_read_line_char [OF fh len, of ext ops] obtain cur where
    eq: "vcf_read_line ext ops d =
       (case util_parse_long ext (?toks ! 1) of
          Inl e \<Rightarrow> Inl e
        | Inr p \<Rightarrow>
            (case parse_requested ext ops
                    (d\<lparr>vcf_fh := fh,
                       vcf_info := fixed_fields ext (vcf_info d) ?toks p,
                       warnings := warnings d @
                         allele_warning (ref_allele_size ext) (?toks ! 3) @
                         allele_warning (alt_allele_size ext) (?toks ! 4)\<rparr>)
                    cur of
               Inl e \<Rightarrow> Inl e
             | Inr d' \<Rightarrow> Inr (None, d')))"
    by blast
  from ok eq obtain p where
    pr: "parse_requested ext ops
           (d\<lparr>vcf_fh := fh,
              vcf_info := fixed_fields ext (vcf_info d) ?toks p,
              warnings := warnings d @
                allele_warning (ref_allele_size ext) (?toks ! 3) @
                allele_warning (alt_allele_size ext) (?toks ! 4)\<rparr>)
           cur = Inr d'"
    by (auto split: sum.splits)
  from parse_requested_frame [OF pr] obtain ws where
    vi: "vcf_info d' = fixed_fields ext (vcf_info d) ?toks p" and
    w: "warnings d' = warnings d @
          allele_warning (ref_allele_size ext) (?toks ! 3) @
          allele_warning (alt_allele_size ext) (?toks ! 4) @ ws" and
    ws: "filter is_truncation ws = []"
    by auto
  from vi show "ref_len (vcf_info d') = int (length (?toks ! 3))"
    and "alt_len (vcf_info d') = int (length (?toks ! 4))"
    and "ref_allele (vcf_info d') = take (ref_allele_size ext - 1) (?toks ! 3)"
    and "alt_allele (vcf_info d') = take (alt_allele_size ext - 1) (?toks ! 4)"
    by (simp_all add: fixed_fields_def)
  from w show "take (length (warnings d)) (warnings d') = warnings d" by simp
  from w ws have "filter is_truncation (drop (length (warnings d)) (warnings d')) =
      allele_warning (ref_allele_size ext) (?toks ! 3) @
      allele_warning (alt_allele_size ext) (?toks ! 4)"
    by (simp add: filter_allele_warning)
  then show "filter is_truncation (drop (length (warnings d)) (warnings d')) =
        (if ref_allele_size ext - 1 < length (?toks ! 3)
         then [TruncatingLongAllele (int (length (?toks ! 3))) (int (ref_allele_size ext - 1))]
         else []) @
        (if alt_allele_size ext - 1 < length (?toks ! 4)
         then [TruncatingLongAllele (int (length (?toks ! 4))) (int (alt_allele_size ext - 1))]
         else [])"
    by (simp only: allele_warning_def)
next
  assume a: "vcf_fh d = line # fh \<and> 9 \<le> length (split_str delim line) \<and>
    util_parse_long ext (split_str delim line ! 1) = Inr p \<and>
    geno_probs_arg d = None \<and> haplotypes_arg d = None"
  then have fh: "vcf_fh d = line # fh" and len: "9 \<le> length (split_str delim line)"
    by simp_all
  from vcf_read_line_char [OF fh len, of ext ops] a
  show "\<exists>d'. vcf_read_line ext ops d = Inr (None, d')"
    by (auto simp: parse_requested_def)
qed

text \<open>
  The theorem on a line whose reference allele has five characters, for arrays of four
  bytes, and on a line with two long alleles when no array is requested.
\<close>

theorem allele_lengths_true_and_truncation_warned_witness:
  "(\<exists>r d'. vcf_read_line small_ext recording_ops
            (hap_decoder 1 True [''1 100 rs1 ACGTA G . PASS . GT 0|1'']) = Inr (r, d') \<and>
     ref_len (vcf_info d') = 5 \<and> alt_len (vcf_info d') = 1 \<and>
     ref_allele (vcf_info d') = ''ACG'' \<and> alt_allele (vcf_info d') = ''G'' \<and>
     filter is_truncation (warnings d') = [TruncatingLongAllele 5 3]) \<and>
   (\<exists>d'. vcf_read_line small_ext recording_ops
           ((hap_decoder 1 True [''1 100 rs1 ACGTA GGGGGGGG . PASS . GT 0|1''])
              \<lparr>haplotypes_arg := None\<rparr>) = Inr (None, d'))"
proof (intro conjI)
  let ?line = "''1 100 rs1 ACGTA G . PASS . GT 0|1''"
  let ?d = "hap_decoder 1 True [?line]"
  let ?res = "vcf_read_line small_ext recording_ops ?d"
  have "\<not> isl ?res" by code_simp
  then obtain r d' where res: "?res = Inr (r, d')" by (cases ?res) auto
  have fh: "vcf_fh ?d = ?line # []" by (simp add: hap_decoder_def)
  have v: "int (length (split_str delim ?line ! 3)) = 5"
    "int (length (split_str delim ?line ! 4)) = 1"
    "take (ref_allele_size small_ext - 1) (split_str delim ?line ! 3) = ''ACG''"
    "take (alt_allele_size small_ext - 1) (split_str delim ?line ! 4) = ''G''"
    "(if ref_allele_size small_ext - 1 < length (split_str delim ?line ! 3)
         then [TruncatingLongAllele (int (length (split_str delim ?line ! 3)))
                 (int (ref_allele_size small_ext - 1))]
         else []) @
        (if alt_allele_size small_ext - 1 < length (split_str delim ?line ! 4)
         then [TruncatingLongAllele (int (length (split_str delim ?line ! 4)))
                 (int (alt_allele_size small_ext - 1))]
         else []) = [TruncatingLongAllele 5 3]"
    "warnings ?d = []"
    by code_simp+
  note v14 = v(1-4) and v56 = v(5-6)
  from fh res allele_lengths_true_and_truncation_warned
                [of ?d ?line "[]" small_ext recording_ops r d']
  have c: "ref_len (vcf_info d') = int (length (split_str delim ?line ! 3))"
      "alt_len (vcf_info d') = int (length (split_str delim ?line ! 4))"
      "ref_allele (vcf_info d') = take (ref_allele_size small_ext - 1) (split_str delim ?line ! 3)"
      "alt_allele (vcf_info d') = take (alt_allele_size small_ext - 1) (split_str delim ?line ! 4)"
      "filter is_truncation (drop (length (warnings ?d)) (warnings d')) =
        (if ref_allele_size small_ext - 1 < length (split_str delim ?line ! 3)
         then [TruncatingLongAllele (int (length (split_str delim ?line ! 3)))
                 (int (ref_allele_size small_ext - 1))]
         else []) @
        (if alt_allele_size small_ext - 1 < length (split_str delim ?line ! 4)
         then [TruncatingLongAllele (int (length (split_str delim ?line ! 4)))
                 (int (alt_allele_size small_ext - 1))]
         else [])"
    by blast+
  from c(5) have "filter is_truncation (warnings d') = [TruncatingLongAllele 5 3]"
    by (simp only: v56 list.size drop_0)
  with c(1-4) have "ref_len (vcf_info d') = 5 \<and> alt_len (vcf_info d') = 1 \<and>
     ref_allele (vcf_info d') = ''ACG'' \<and> alt_allele (vcf_info d') = ''G'' \<and>
     filter is_truncation (warnings d') = [TruncatingLongAllele 5 3]"
    by (simp only: v14)
  with res show "\<exists>r d'. ?res = Inr (r, d') \<and>
     ref_len (vcf_info d') = 5 \<and> alt_len (vcf_info d') = 1 \<and>
     ref_allele (vcf_info d') = ''ACG'' \<and> alt_allele (vcf_info d') = ''G'' \<and>
     filter is_truncation (warnings d') = [TruncatingLongAllele 5 3]"
    by blast
next
  let ?line = "''1 100 rs1 ACGTA GGGGGGGG . PASS . GT 0|1''"
  let ?d = "(hap_decoder 1 True [?line])\<lparr>haplotypes_arg := None\<rparr>"
  have t: "9 \<le> length (split_str delim ?line) \<and>
           util_parse_long small_ext (split_str delim ?line ! 1) = Inr 100"
    by code_simp
  have "vcf_fh ?d = ?line # [] \<and> geno_probs_arg ?d = None \<and> haplotypes_arg ?d = None"
    by (simp add: hap_decoder_def)
  with t allele_lengths_true_and_truncation_warned
           [where d = ?d and line = ?line and fh = "[]" and ext = small_ext and p = 100
              and ops = recording_ops]
  show "\<exists>d'. vcf_read_line small_ext recording_ops ?d = Inr (None, d')" by blast
qed

subsection \<open>C8: the value returned\<close>

text \<open>
  C8 says that \<^verbatim>\<open>vcf_read_line\<close> returns \<open>-1\<close> exactly at the end of the stream
  and the distinct value 0 for every line decoded. The comment above the function promises
  both, and the first holds: \<open>-1\<close> is returned when the line source gives NULL, and
  nowhere else. The function has no second \<^verbatim>\<open>return\<close>: after a line is decoded
  control reaches the closing brace, and the caller reads a value that the function never
  set (lemma \<open>vcf_read_line_returned_value\<close> has it for every call that returns). On a
  well-formed line of one sample the model returns no value; on an empty stream it returns
  \<open>-1\<close> and leaves the array alone.
\<close>

theorem success_path_returns_no_value:
  "line_view 2 (vcf_read_line small_ext recording_ops
      (hap_decoder 1 True [''1 100 rs1 A G . PASS . GT 0|1''])) =
     Inr (None, [0, 1], True, []) \<and>
   line_view 2 (vcf_read_line small_ext recording_ops (hap_decoder 1 True [])) =
     Inr (Some (- 1), [0, 0], True, [])"
  by code_simp

subsection \<open>C9: the sample count\<close>

text \<open>
  C9: \<^verbatim>\<open>vcf_read_header\<close> sets the sample count to the number of space- or
  tab-delimited tokens of the \<^verbatim>\<open>#CHROM\<close> line minus the nine fixed column names, and
  the line \<^verbatim>\<open>#CHROM POS ID REF ALT QUAL FILTER INFO FORMAT S1 S2\<close> gives 2. In the
  theorem the stream is any number of lines that start with \<^verbatim>\<open>##\<close>, then a line that
  starts with \<^verbatim>\<open>#CHROM\<close>, then the data lines, which are left in the stream. The
  number of tokens is given twice: as the length of the token list, and as one more than the
  number of spaces and tabs of the line, since every delimiter character ends a token.
\<close>

theorem sample_count_is_token_count_minus_nine:
  "(list_all (\<lambda>l. util_str_starts_with l ''##'') metas \<and> util_str_starts_with hdr ''#CHROM'' \<longrightarrow>
      (\<exists>vi' ws. vcf_read_header (metas @ hdr # rest) vi = Inr (vi', ws, rest) \<and>
         n_samples vi' = int (length (split_str delim hdr)) - 9 \<and>
         n_samples vi' =
           int (length (filter (\<lambda>c. c = CHR '' '' \<or> c = CHR 0x09) hdr)) + 1 - 9 \<and>
         n_header_lines vi' = int (length metas) + 1)) \<and>
   (\<exists>vi' ws. vcf_read_header [''#CHROM POS ID REF ALT QUAL FILTER INFO FORMAT S1 S2''] vi =
               Inr (vi', ws, []) \<and> n_samples vi' = 2)"
proof (intro conjI impI)
  assume a: "list_all (\<lambda>l. util_str_starts_with l ''##'') metas \<and>
             util_str_starts_with hdr ''#CHROM''"
  have "length (split_str delim hdr) =
          Suc (length (filter (\<lambda>c. c = CHR '' '' \<or> c = CHR 0x09) hdr))"
    by (simp add: length_split_str delim_def)
  with a vcf_read_header_chrom_line [of metas hdr rest vi]
  show "\<exists>vi' ws. vcf_read_header (metas @ hdr # rest) vi = Inr (vi', ws, rest) \<and>
         n_samples vi' = int (length (split_str delim hdr)) - 9 \<and>
         n_samples vi' =
           int (length (filter (\<lambda>c. c = CHR '' '' \<or> c = CHR 0x09) hdr)) + 1 - 9 \<and>
         n_header_lines vi' = int (length metas) + 1"
    by simp
next
  let ?hdr = "''#CHROM POS ID REF ALT QUAL FILTER INFO FORMAT S1 S2''"
  have h: "util_str_starts_with ?hdr ''#CHROM''" by code_simp
  have n: "int (length (split_str delim ?hdr)) - 9 = 2" by code_simp
  from vcf_read_header_chrom_line [of "[]" ?hdr "[]" vi] h n
  show "\<exists>vi' ws. vcf_read_header [?hdr] vi = Inr (vi', ws, []) \<and> n_samples vi' = 2"
    by simp
qed

text \<open>The theorem on a header of two meta lines and a column line with three samples.\<close>

theorem sample_count_is_token_count_minus_nine_witness:
  "\<exists>vi' ws. vcf_read_header
       [''##fileformat=VCFv4.1'', ''##source=x'',
        ''#CHROM POS ID REF ALT QUAL FILTER INFO FORMAT NA1 NA2 NA3'', ''1 100 . A G . . . GT 0|0 0|1 1|1'']
       (info_with 0 []) =
     Inr (vi', ws, [''1 100 . A G . . . GT 0|0 0|1 1|1'']) \<and>
     n_samples vi' = 3 \<and> n_header_lines vi' = 3"
proof -
  let ?metas = "[''##fileformat=VCFv4.1'', ''##source=x'']"
  let ?hdr = "''#CHROM POS ID REF ALT QUAL FILTER INFO FORMAT NA1 NA2 NA3''"
  let ?rest = "[''1 100 . A G . . . GT 0|0 0|1 1|1'']"
  have h: "list_all (\<lambda>l. util_str_starts_with l ''##'') ?metas \<and>
           util_str_starts_with ?hdr ''#CHROM''"
    by code_simp
  have n: "int (length (split_str delim ?hdr)) - 9 = 3" "int (length ?metas) + 1 = 3"
    by code_simp+
  from h sample_count_is_token_count_minus_nine [of ?metas ?hdr ?rest "info_with 0 []"]
  obtain vi' ws where
    "vcf_read_header (?metas @ ?hdr # ?rest) (info_with 0 []) = Inr (vi', ws, ?rest)"
    "n_samples vi' = int (length (split_str delim ?hdr)) - 9"
    "n_header_lines vi' = int (length ?metas) + 1"
    by blast
  then show ?thesis unfolding n by auto
qed

subsection \<open>C10: a sample token with too few subfields\<close>

text \<open>
  C10 as stated says that a sample token with fewer subfields than the index of the tag stores
  nothing and reports nothing, and that the end-of-line count check then raises the fatal
  error for too few fields. The check compares the number of entries stored with the sample
  count, not the number of tokens: on a line that has one token more than there are samples
  the token without the subfield goes unnoticed. With the format \<^verbatim>\<open>A:B:GT\<close> (index 2)
  and one sample, the columns \<^verbatim>\<open>x\<close> and \<^verbatim>\<open>0:0:0|1\<close> decode to the pair 0 and 1
  with no error and no warning.
\<close>

theorem short_token_unnoticed_counterexample:
  "get_format_index ''A:B:GT'' ''GT'' = 2 \<and>
   cursor_tokens delim (Some ''x 0:0:0|1'') = [''x'', ''0:0:0|1''] \<and>
   length (split_str inner_delim ''x'') = 1 \<and>
   hap_view 2 (parse_haplotypes 16 (info_with 1 ''A:B:GT'') (\<lambda>_. 0) (Some ''x 0:0:0|1'') True) =
     Inr ([0, 1], True, [])"
  by code_simp

text \<open>
  C10, amended: a sample token whose copy has no subfield at the index of the tag (at most
  that many subfields, which includes fewer than the index) stores nothing and reports
  nothing, for both decoders; if the line has no more sample tokens than the record has
  samples, the decode then ends in a fatal error: for \<^verbatim>\<open>parse_haplotypes\<close> the
  count error of the end of the line, and for \<^verbatim>\<open>parse_geno_probs\<close> some fatal error,
  which is that count error when every likelihood subfield of the line is accepted.
\<close>

theorem short_token_skipped_then_count_error:
  "(0 \<le> idx \<and> length (split_str inner_delim (fst (util_strncpy tok mf))) \<le> nat idx \<longrightarrow>
      subfield_loop (hap_body expect) idx 0 (Some (fst (util_strncpy tok mf))) st = Inr st \<and>
      subfield_loop (gl_body ops expect) idx 0 (Some (fst (util_strncpy tok mf))) gst = Inr gst) \<and>
   (get_format_index (format vi) ''GT'' \<noteq> - 1 \<and>
    tok \<in> set (cursor_tokens delim cur) \<and>
    length (split_str inner_delim (fst (util_strncpy tok mf))) \<le>
      nat (get_format_index (format vi) ''GT'') \<and>
    int (length (cursor_tokens delim cur)) \<le> n_samples vi \<longrightarrow>
      parse_haplotypes mf vi haps cur wp =
        Inl (ExpectedGenotypes (n_samples vi * 2) (2 * int (length (gt_subfields mf vi cur)))) \<and>
      int (length (gt_subfields mf vi cur)) < n_samples vi) \<and>
   (get_format_index (format vi) ''GL'' \<noteq> - 1 \<and>
    tok \<in> set (cursor_tokens delim cur) \<and>
    length (split_str inner_delim (fst (util_strncpy tok mf))) \<le>
      nat (get_format_index (format vi) ''GL'') \<and>
    int (length (cursor_tokens delim cur)) \<le> n_samples vi \<longrightarrow>
      (\<exists>e. parse_geno_probs ops mf vi probs cur = Inl e) \<and>
      (list_all (gl_ok ops) (gl_subfields mf vi cur) \<longrightarrow>
         parse_geno_probs ops mf vi probs cur =
           Inl (ExpectedLikelihoods (n_samples vi * 3)
                  (3 * int (length (gl_subfields mf vi cur))))))"
proof (intro conjI impI)
  assume a: "0 \<le> idx \<and> length (split_str inner_delim (fst (util_strncpy tok mf))) \<le> nat idx"
  then show "subfield_loop (hap_body expect) idx 0 (Some (fst (util_strncpy tok mf))) st = Inr st"
    by (simp add: short_token_skipped)
  from a show "subfield_loop (gl_body ops expect) idx 0 (Some (fst (util_strncpy tok mf))) gst =
      Inr gst"
    by (simp add: short_token_skipped)
next
  assume a: "get_format_index (format vi) ''GT'' \<noteq> - 1 \<and>
    tok \<in> set (cursor_tokens delim cur) \<and>
    length (split_str inner_delim (fst (util_strncpy tok mf))) \<le>
      nat (get_format_index (format vi) ''GT'') \<and>
    int (length (cursor_tokens delim cur)) \<le> n_samples vi"
  with short_token_fewer_subfields [of tok cur mf "get_format_index (format vi) ''GT''"]
  have less: "int (length (gt_subfields mf vi cur)) < n_samples vi"
    by (simp add: gt_subfields_def)
  then show "int (length (gt_subfields mf vi cur)) < n_samples vi" .
  from a less show "parse_haplotypes mf vi haps cur wp =
        Inl (ExpectedGenotypes (n_samples vi * 2) (2 * int (length (gt_subfields mf vi cur))))"
    by (simp add: parse_haplotypes_fewer)
next
  assume a: "get_format_index (format vi) ''GL'' \<noteq> - 1 \<and>
    tok \<in> set (cursor_tokens delim cur) \<and>
    length (split_str inner_delim (fst (util_strncpy tok mf))) \<le>
      nat (get_format_index (format vi) ''GL'') \<and>
    int (length (cursor_tokens delim cur)) \<le> n_samples vi"
  with short_token_fewer_subfields [of tok cur mf "get_format_index (format vi) ''GL''"]
  have less: "int (length (gl_subfields mf vi cur)) < n_samples vi"
    by (simp add: gl_subfields_def)
  show "\<exists>e. parse_geno_probs ops mf vi probs cur = Inl e"
  proof (cases "list_all (gl_ok ops) (gl_subfields mf vi cur)")
    case True
    with a less show ?thesis by (simp add: parse_geno_probs_fewer)
  next
    case False
    from parse_geno_probs_bad [OF this [unfolded gl_subfields_def]] show ?thesis .
  qed
  assume "list_all (gl_ok ops) (gl_subfields mf vi cur)"
  with a less show "parse_geno_probs ops mf vi probs cur =
           Inl (ExpectedLikelihoods (n_samples vi * 3)
                  (3 * int (length (gl_subfields mf vi cur))))"
    by (simp add: parse_geno_probs_fewer)
qed

text \<open>
  The theorem on the token \<^verbatim>\<open>x\<close> under index 1, and on lines of two tokens for two
  samples whose first token lacks the subfield of the tag.
\<close>

theorem short_token_skipped_then_count_error_witness:
  "subfield_loop (hap_body 4) 1 0 (Some ''x'')
     \<lparr>haplotypes = (\<lambda>_. 0), n_haps = 0, warn_phase = True, hap_log = []\<rparr> =
     Inr \<lparr>haplotypes = (\<lambda>_. 0), n_haps = 0, warn_phase = True, hap_log = []\<rparr> \<and>
   parse_haplotypes 16 (info_with 2 ''GL:GT'') (\<lambda>_. 0) (Some ''x .:0|1'') True =
     Inl (ExpectedGenotypes 4 2) \<and>
   parse_geno_probs recording_ops 16 (info_with 2 ''GT:GL'') (\<lambda>_. Lit []) (Some ''0|1 0|1:.'') =
     Inl (ExpectedLikelihoods 6 3)"
proof (intro conjI)
  have h: "(0::int) \<le> 1 \<and> length (split_str inner_delim (fst (util_strncpy ''x'' 16))) \<le> nat 1"
    by code_simp
  have c: "fst (util_strncpy ''x'' 16) = ''x''" by code_simp
  from h short_token_skipped_then_count_error [of 1 "''x''" 16 4
         "\<lparr>haplotypes = (\<lambda>_. 0), n_haps = 0, warn_phase = True, hap_log = []\<rparr>"]
  have "subfield_loop (hap_body 4) 1 0 (Some (fst (util_strncpy ''x'' 16)))
          \<lparr>haplotypes = (\<lambda>_. 0), n_haps = 0, warn_phase = True, hap_log = []\<rparr> =
        Inr \<lparr>haplotypes = (\<lambda>_. 0), n_haps = 0, warn_phase = True, hap_log = []\<rparr>"
    by blast
  then show "subfield_loop (hap_body 4) 1 0 (Some ''x'')
     \<lparr>haplotypes = (\<lambda>_. 0), n_haps = 0, warn_phase = True, hap_log = []\<rparr> =
     Inr \<lparr>haplotypes = (\<lambda>_. 0), n_haps = 0, warn_phase = True, hap_log = []\<rparr>"
    unfolding c .
next
  let ?vi = "info_with 2 ''GL:GT''"
  let ?cur = "Some ''x .:0|1''"
  have h: "get_format_index (format ?vi) ''GT'' \<noteq> - 1 \<and>
    ''x'' \<in> set (cursor_tokens delim ?cur) \<and>
    length (split_str inner_delim (fst (util_strncpy ''x'' 16))) \<le>
      nat (get_format_index (format ?vi) ''GT'') \<and>
    int (length (cursor_tokens delim ?cur)) \<le> n_samples ?vi"
    by code_simp
  have v: "n_samples ?vi * 2 = 4" "2 * int (length (gt_subfields 16 ?vi ?cur)) = 2"
    by code_simp+
  from h short_token_skipped_then_count_error
           [where tok = "''x''" and mf = 16 and vi = ?vi and cur = ?cur and haps = "\<lambda>_. 0"
              and wp = True]
  have "parse_haplotypes 16 ?vi (\<lambda>_. 0) ?cur True =
     Inl (ExpectedGenotypes (n_samples ?vi * 2) (2 * int (length (gt_subfields 16 ?vi ?cur))))"
    by blast
  then show "parse_haplotypes 16 ?vi (\<lambda>_. 0) ?cur True = Inl (ExpectedGenotypes 4 2)"
    unfolding v .
next
  let ?vi = "info_with 2 ''GT:GL''"
  let ?cur = "Some ''0|1 0|1:.''"
  have h: "get_format_index (format ?vi) ''GL'' \<noteq> - 1 \<and>
    ''0|1'' \<in> set (cursor_tokens delim ?cur) \<and>
    length (split_str inner_delim (fst (util_strncpy ''0|1'' 16))) \<le>
      nat (get_format_index (format ?vi) ''GL'') \<and>
    int (length (cursor_tokens delim ?cur)) \<le> n_samples ?vi"
    by code_simp
  have ok: "list_all (gl_ok recording_ops) (gl_subfields 16 ?vi ?cur)" by code_simp
  have v: "n_samples ?vi * 3 = 6" "3 * int (length (gl_subfields 16 ?vi ?cur)) = 3"
    by code_simp+
  from h ok short_token_skipped_then_count_error
           [where tok = "''0|1''" and mf = 16 and vi = ?vi and cur = ?cur and ops = recording_ops
              and probs = "\<lambda>_. Lit []"]
  have "parse_geno_probs recording_ops 16 ?vi (\<lambda>_. Lit []) ?cur =
     Inl (ExpectedLikelihoods (n_samples ?vi * 3) (3 * int (length (gl_subfields 16 ?vi ?cur))))"
    by blast
  then show "parse_geno_probs recording_ops 16 ?vi (\<lambda>_. Lit []) ?cur =
     Inl (ExpectedLikelihoods 6 3)"
    unfolding v .
qed

end
